theory Spec2Isabelle
  imports Complex_Main "HOL-Library.Log_Nat"
begin

chapter \<open>The model\<close>

section \<open>Exception hierarchy (common/exceptions.py)\<close>

text \<open>
  The Python classes that can reach the code under study. The first seven are the
  classes of \<^verbatim>\<open>common/exceptions.py\<close>; \<open>ClientError\<close> is botocore's, the rest are
  built-in.
\<close>

datatype exc_class =
    PyException
  | TransferError
  | RetryableError
  | NonRetryableError
  | AccessDeniedError
  | ObjectTooLargeError
  | ManifestError
  | ValidationError
  | ClientError
  | PyValueError
  | PyTypeError
  | PyZeroDivisionError
  | PyKeyError
  | PyOverflowError

text \<open>The method resolution order of a class: the class itself, then its bases.\<close>

fun mro :: "exc_class \<Rightarrow> exc_class list" where
  "mro PyException = [PyException]"
| "mro TransferError = [TransferError, PyException]"
| "mro RetryableError = [RetryableError, TransferError, PyException]"
| "mro NonRetryableError = [NonRetryableError, TransferError, PyException]"
| "mro AccessDeniedError = [AccessDeniedError, NonRetryableError, TransferError, PyException]"
| "mro ObjectTooLargeError = [ObjectTooLargeError, NonRetryableError, TransferError, PyException]"
| "mro ManifestError = [ManifestError, NonRetryableError, TransferError, PyException]"
| "mro ValidationError = [ValidationError, NonRetryableError, TransferError, PyException]"
| "mro ClientError = [ClientError, PyException]"
| "mro PyValueError = [PyValueError, PyException]"
| "mro PyTypeError = [PyTypeError, PyException]"
| "mro PyZeroDivisionError = [PyZeroDivisionError, PyException]"
| "mro PyKeyError = [PyKeyError, PyException]"
| "mro PyOverflowError = [PyOverflowError, PyException]"

text \<open>
  What an exception carries besides its class and message: the \<open>details\<close> dict of
  \<open>TransferError\<close>. The shapes are the ones the code builds.
\<close>

datatype validation_status = PASSED | FAILED

record sample_failure =
  f_key :: string
  f_expected_size :: int
  f_actual_size :: "int option"
  f_reason :: string

record validation_result =
  status :: validation_status
  total_expected :: int
  total_found :: int
  samples_checked :: int
  samples_passed :: int
  failures :: "sample_failure list"
  execution_id :: string
  manifest_bucket :: string
  manifest_key :: string
  destination_bucket :: string

datatype exn_details =
    NoDetails
  | S3Details string string
  | StsDetails string string
  | ResultDetails validation_result

text \<open>
  An exception value. \<open>BotoClientError code text\<close> is botocore's \<open>ClientError\<close> with
  \<open>e.response["Error"]["Code"] = code\<close> and \<open>str(e) = text\<close>; \<open>Raised c m d\<close> is an
  exception of class \<open>c\<close> with message \<open>m\<close> and details \<open>d\<close>.
\<close>

datatype exn =
    BotoClientError string string
  | Raised exc_class string exn_details

fun class_of :: "exn \<Rightarrow> exc_class" where
  "class_of (BotoClientError code text) = ClientError"
| "class_of (Raised c m d) = c"

text \<open>\<open>isinstance(e, classes)\<close> for a tuple of classes: \<open>except classes as e\<close> matches.\<close>

definition isinstance :: "exn \<Rightarrow> exc_class list \<Rightarrow> bool" where
  "isinstance e classes = list_ex (\<lambda>c. c \<in> set (mro (class_of e))) classes"

section \<open>Backoff retrier (common/retry.py)\<close>

text \<open>
  The decorator's arguments. The delays are Python floats, as the signature says and as
  every caller passes them; they are modelled as reals, up to rounding. In
  \<open>base_delay * (2**attempt)\<close> the integer \<open>2**attempt\<close> is converted to a float, which
  raises \<open>OverflowError\<close> from \<open>2**1024\<close> on; the loop below has that branch.
\<close>

record retry_params =
  max_attempts :: int
  base_delay :: real
  max_delay :: real
  retryable_exceptions :: "exc_class list"

text \<open>
  What the wrapper has done so far: the world the wrapped function acts on, how often
  the function was invoked, and the durations passed to \<open>time.sleep\<close>, oldest first.
\<close>

record 'w retry_state =
  world :: 'w
  invocations :: nat
  sleeps :: "real list"

text \<open>
  \<open>random.uniform(a, b)\<close> is \<open>a + (b - a) * random()\<close>; \<open>u\<close> is the value \<open>random()\<close>
  returns.
\<close>

definition uniform :: "real \<Rightarrow> real \<Rightarrow> real \<Rightarrow> real" where
  "uniform u a b = a + (b - a) * u"

text \<open>
  \<open>time.sleep(secs)\<close> converts the duration to whole nanoseconds in a signed 64-bit
  integer, rounding away from zero: it raises \<open>OverflowError\<close> when they do not fit, and
  \<open>ValueError\<close> on a negative duration. \<open>sleep_failure\<close> is the exception raised, if any.
\<close>

definition sleep_failure :: "real \<Rightarrow> exn option" where
  "sleep_failure secs =
     (let ns = (if 0 \<le> secs then \<lceil>secs * 10 ^ 9\<rceil> else \<lfloor>secs * 10 ^ 9\<rfloor>)
      in if ns < - (2 ^ 63) \<or> 2 ^ 63 \<le> ns
         then Some (Raised PyOverflowError ''timestamp too large to convert to C _PyTime_t''
                      NoDetails)
         else if ns < 0
         then Some (Raised PyValueError ''sleep length must be non-negative'' NoDetails)
         else None)"

text \<open>
  The loop \<open>for attempt in range(max_attempts)\<close> of \<open>wrapper\<close>, over the attempts still
  to run. \<open>func\<close> is the wrapped call with its arguments applied: it takes the world and
  returns its result or exception with the new world. \<open>rnd k\<close> is the value of the
  \<open>k\<close>-th call of \<open>random()\<close>. An exception that is not
  one of \<open>retryable_exceptions\<close> leaves the wrapper at once, whether through
  \<open>except NonRetryableError: raise\<close> or uncaught. An exception raised while handling a
  retryable one, by the computation of the delay or by \<open>time.sleep\<close>, leaves the wrapper
  as well. After the loop, \<open>raise last_exception\<close> with \<open>None\<close> is a \<open>TypeError\<close>.
\<close>

fun retry_loop ::
  "retry_params \<Rightarrow> (nat \<Rightarrow> real) \<Rightarrow> ('w \<Rightarrow> (exn + 'a) \<times> 'w) \<Rightarrow> nat list \<Rightarrow>
   exn option \<Rightarrow> 'w retry_state \<Rightarrow> (exn + 'a) \<times> 'w retry_state" where
  "retry_loop P rnd func [] last_exception st =
     (case last_exception of
        None \<Rightarrow> (Inl (Raised PyTypeError ''exceptions must derive from BaseException'' NoDetails), st)
      | Some e \<Rightarrow> (Inl e, st))"
| "retry_loop P rnd func (attempt # rest) last_exception st =
     (case func (world st) of
        (r, w') \<Rightarrow>
          let st1 = st\<lparr>world := w', invocations := Suc (invocations st)\<rparr> in
          (case r of
             Inr v \<Rightarrow> (Inr v, st1)
           | Inl e \<Rightarrow>
               if isinstance e (retryable_exceptions P) then
                 if int attempt = max_attempts P - 1 then (Inl e, st1)
                 else if 1024 \<le> attempt
                 then (Inl (Raised PyOverflowError ''int too large to convert to float'' NoDetails), st1)
                 else
                   let delay = uniform (rnd (length (sleeps st1))) 0
                                 (min (max_delay P) (base_delay P * 2 ^ attempt))
                   in (case sleep_failure delay of
                         Some sleep_exception \<Rightarrow> (Inl sleep_exception, st1)
                       | None \<Rightarrow>
                           retry_loop P rnd func rest (Some e)
                             (st1\<lparr>sleeps := sleeps st1 @ [delay]\<rparr>))
               else (Inl e, st1)))"

text \<open>The decorated function: \<open>range(max_attempts)\<close> is empty for \<open>max_attempts \<le> 0\<close>.\<close>

definition exponential_backoff_with_jitter ::
  "retry_params \<Rightarrow> (nat \<Rightarrow> real) \<Rightarrow> ('w \<Rightarrow> (exn + 'a) \<times> 'w) \<Rightarrow> 'w \<Rightarrow>
   (exn + 'a) \<times> 'w retry_state" where
  "exponential_backoff_with_jitter P rnd func w =
     retry_loop P rnd func [0..<nat (max_attempts P)] None
       \<lparr>world = w, invocations = 0, sleeps = []\<rparr>"

section \<open>Printing integers\<close>

text \<open>\<open>str(n)\<close> for an integer, as the f-strings of the error messages print it.\<close>

fun str_nat_fuel :: "nat \<Rightarrow> nat \<Rightarrow> string" where
  "str_nat_fuel 0 n = [char_of (48 + n mod 10)]"
| "str_nat_fuel (Suc fuel) n =
     (if n < 10 then [char_of (48 + n)]
      else str_nat_fuel fuel (n div 10) @ [char_of (48 + n mod 10)])"

definition str_int :: "int \<Rightarrow> string" where
  "str_int i = (if i < 0 then CHR ''-'' # str_nat_fuel (nat (- i)) (nat (- i))
                else str_nat_fuel (nat i) (nat i))"

text \<open>\<open>str(e)\<close> of an exception: its message.\<close>

fun exn_str :: "exn \<Rightarrow> string" where
  "exn_str (BotoClientError code text) = text"
| "exn_str (Raised c m d) = m"

section \<open>Python's true division of integers\<close>

text \<open>
  \<open>a / b\<close> for two Python integers is the exact quotient rounded to the nearest IEEE 754
  double, ties to even: 53 significant bits down to the exponent \<open>-1022\<close>, multiples of
  \<open>2^-1074\<close> below it. A zero divisor raises \<open>ZeroDivisionError\<close>, a result of \<open>2^1024\<close> or
  more \<open>OverflowError\<close>; a quotient below half of \<open>2^-1074\<close> becomes \<open>0.0\<close>.
\<close>

definition pow2 :: "int \<Rightarrow> real" where
  "pow2 k = (if 0 \<le> k then 2 ^ nat k else inverse (2 ^ nat (- k)))"

definition round_half_even :: "real \<Rightarrow> int" where
  "round_half_even m =
     (let f = \<lfloor>m\<rfloor>; r = m - of_int f
      in if r < 1 / 2 then f else if 1 / 2 < r then f + 1 else if even f then f else f + 1)"

text \<open>The exponent \<open>e\<close> with \<open>2^e \<le> a / b < 2^(e + 1)\<close>, for positive \<open>a\<close> and \<open>b\<close>.\<close>

definition quotient_exponent :: "int \<Rightarrow> int \<Rightarrow> int" where
  "quotient_exponent a b =
     (let d = bitlen a - bitlen b
      in if pow2 d * of_int b \<le> of_int a then d else d - 1)"

text \<open>The double nearest to \<open>a / b\<close>, for positive \<open>a\<close> and \<open>b\<close>, before the range check.\<close>

definition round_to_double :: "int \<Rightarrow> int \<Rightarrow> real" where
  "round_to_double a b =
     (let e = max (quotient_exponent a b) (- 1022);
          quantum = pow2 (e - 52)
      in of_int (round_half_even (of_int a / of_int b / quantum)) * quantum)"

definition int_true_divide :: "int \<Rightarrow> int \<Rightarrow> exn + real" where
  "int_true_divide a b =
     (if b = 0 then Inl (Raised PyZeroDivisionError ''division by zero'' NoDetails)
      else if a = 0 then Inr 0
      else
        let r = round_to_double \<bar>a\<bar> \<bar>b\<bar>
        in if 2 ^ 1024 \<le> r
           then Inl (Raised PyOverflowError ''integer division result too large for a float''
                      NoDetails)
           else Inr (if (a < 0) = (b < 0) then r else - r))"

section \<open>S3 client wrapper (common/s3_client.py)\<close>

definition MAX_OBJECT_SIZE :: int where
  "MAX_OBJECT_SIZE = 5 * 1024 * 1024 * 1024 * 1024"

definition DEFAULT_MULTIPART_THRESHOLD :: int where
  "DEFAULT_MULTIPART_THRESHOLD = 5 * 1024 * 1024 * 1024"

definition DEFAULT_PART_SIZE :: int where
  "DEFAULT_PART_SIZE = 100 * 1024 * 1024"

text \<open>
  \<open>_classify_s3_error(e, operation)\<close>, for a \<open>ClientError\<close> \<open>e\<close> with error code
  \<open>error_code\<close> and \<open>str(e) = text\<close>.
\<close>

definition classify_s3_error :: "string \<Rightarrow> string \<Rightarrow> string \<Rightarrow> exn" where
  "classify_s3_error error_code text operation =
     (let message = ''S3 '' @ operation @ '' failed: '' @ text;
          details = S3Details error_code operation
      in if error_code \<in> set [''AccessDenied'', ''403'']
         then Raised AccessDeniedError message details
         else if error_code \<in> set [''SlowDown'', ''503'', ''RequestTimeout'', ''InternalError'']
         then Raised RetryableError message details
         else Raised RetryableError message details)"

text \<open>
  The calls the code makes on a boto3 S3 client, with their keyword arguments in the
  order of the source. \<open>SSEKMSKeyId\<close> is \<open>''''\<close> when the encryption arguments are
  left out. \<open>CopySourceRange\<close>, the string \<open>bytes=start-end\<close>, is kept as the two
  integers it prints.
\<close>

datatype s3_call =
    CreateMultipartUpload string string string
  | UploadPartCopy string string string int string int int
  | CompleteMultipartUpload string string string "(int \<times> string) list"
  | AbortMultipartUpload string string string
  | CopyObject string string string string string
  | HeadObject string string

record head_response =
  ContentLength :: int
  ETag :: string
  LastModified :: string

text \<open>
  The S3 service as the code sees it: for every method, what the call returns or
  raises, given the calls made before it. \<open>api_create_multipart_upload\<close> returns
  \<open>response["UploadId"]\<close>, \<open>api_upload_part_copy\<close> returns
  \<open>part_response["CopyPartResult"]["ETag"]\<close>; a response without the key is the
  \<open>KeyError\<close> the lookup raises.
\<close>

record s3_client =
  api_create_multipart_upload :: "s3_call list \<Rightarrow> s3_call \<Rightarrow> exn + string"
  api_upload_part_copy :: "s3_call list \<Rightarrow> s3_call \<Rightarrow> exn + string"
  api_complete_multipart_upload :: "s3_call list \<Rightarrow> s3_call \<Rightarrow> exn + string"
  api_abort_multipart_upload :: "s3_call list \<Rightarrow> s3_call \<Rightarrow> exn + unit"
  api_copy_object :: "s3_call list \<Rightarrow> s3_call \<Rightarrow> exn + string"
  api_head_object :: "s3_call list \<Rightarrow> s3_call \<Rightarrow> exn + head_response"

text \<open>The arguments of the four decorators of this module.\<close>

definition s3_retry_params :: retry_params where
  "s3_retry_params =
     \<lparr>max_attempts = 5, base_delay = 1, max_delay = 60, retryable_exceptions = [RetryableError]\<rparr>"

text \<open>
  The body of \<open>head_object\<close> and the decorated function. The world is the list of calls
  made on the client so far.
\<close>

definition head_object_body ::
  "s3_client \<Rightarrow> string \<Rightarrow> string \<Rightarrow> s3_call list \<Rightarrow> (exn + head_response) \<times> s3_call list" where
  "head_object_body s3 bucket key calls =
     (let call = HeadObject bucket key in
      case api_head_object s3 calls call of
        Inr response \<Rightarrow> (Inr response, calls @ [call])
      | Inl (BotoClientError code text) \<Rightarrow> (Inl (classify_s3_error code text ''head_object''), calls @ [call])
      | Inl e \<Rightarrow> (Inl e, calls @ [call]))"

definition head_object ::
  "(nat \<Rightarrow> real) \<Rightarrow> s3_client \<Rightarrow> string \<Rightarrow> string \<Rightarrow> s3_call list \<Rightarrow>
   (exn + head_response) \<times> s3_call list retry_state" where
  "head_object rnd s3 bucket key =
     exponential_backoff_with_jitter s3_retry_params rnd (head_object_body s3 bucket key)"

text \<open>The body of \<open>copy_object\<close> and the decorated function.\<close>

definition copy_object_body ::
  "s3_client \<Rightarrow> string \<Rightarrow> string \<Rightarrow> string \<Rightarrow> string \<Rightarrow> string \<Rightarrow> s3_call list \<Rightarrow>
   (exn + string) \<times> s3_call list" where
  "copy_object_body s3 source_bucket source_key dest_bucket dest_key kms_key_id calls =
     (let call = CopyObject source_bucket source_key dest_bucket dest_key kms_key_id in
      case api_copy_object s3 calls call of
        Inr response \<Rightarrow> (Inr response, calls @ [call])
      | Inl (BotoClientError code text) \<Rightarrow> (Inl (classify_s3_error code text ''copy_object''), calls @ [call])
      | Inl e \<Rightarrow> (Inl e, calls @ [call]))"

definition copy_object ::
  "(nat \<Rightarrow> real) \<Rightarrow> s3_client \<Rightarrow> string \<Rightarrow> string \<Rightarrow> string \<Rightarrow> string \<Rightarrow> string \<Rightarrow>
   s3_call list \<Rightarrow> (exn + string) \<times> s3_call list retry_state" where
  "copy_object rnd s3 source_bucket source_key dest_bucket dest_key kms_key_id =
     exponential_backoff_with_jitter s3_retry_params rnd
       (copy_object_body s3 source_bucket source_key dest_bucket dest_key kms_key_id)"

text \<open>
  \<open>num_parts = math.ceil(object_size / part_size)\<close>: the ceiling of the float quotient, or
  the exception the division raises.
\<close>

definition num_parts :: "int \<Rightarrow> int \<Rightarrow> exn + int" where
  "num_parts object_size part_size =
     (case int_true_divide object_size part_size of
        Inl e \<Rightarrow> Inl e
      | Inr q \<Rightarrow> Inr \<lceil>q\<rceil>)"

text \<open>\<open>start\<close> and \<open>end\<close> of part \<open>part_num\<close>, as the loop body computes them.\<close>

definition part_range :: "int \<Rightarrow> int \<Rightarrow> int \<Rightarrow> int \<times> int" where
  "part_range object_size part_size part_num =
     ((part_num - 1) * part_size, min (part_num * part_size - 1) (object_size - 1))"

text \<open>
  The loop \<open>for part_num in range(1, num_parts + 1)\<close>, over the part numbers still to
  copy; \<open>parts\<close> is the list built so far. The first failing call ends the loop with
  its exception.
\<close>

fun copy_parts ::
  "s3_client \<Rightarrow> string \<Rightarrow> string \<Rightarrow> string \<Rightarrow> string \<Rightarrow> int \<Rightarrow> int \<Rightarrow> int list \<Rightarrow>
   (int \<times> string) list \<Rightarrow> s3_call list \<Rightarrow> (exn + (int \<times> string) list) \<times> s3_call list" where
  "copy_parts s3 dest_bucket dest_key upload_id copy_source object_size part_size [] parts calls =
     (Inr parts, calls)"
| "copy_parts s3 dest_bucket dest_key upload_id copy_source object_size part_size
     (part_num # rest) parts calls =
     (case part_range object_size part_size part_num of
        (range_start, range_end) \<Rightarrow>
          let call = UploadPartCopy dest_bucket dest_key upload_id part_num copy_source
                       range_start range_end
          in (case api_upload_part_copy s3 calls call of
                Inl e \<Rightarrow> (Inl e, calls @ [call])
              | Inr etag \<Rightarrow>
                  copy_parts s3 dest_bucket dest_key upload_id copy_source object_size part_size
                    rest (parts @ [(part_num, etag)]) (calls @ [call])))"

text \<open>
  The handler \<open>except Exception:\<close> of \<open>multipart_copy\<close>, entered with the exception \<open>e\<close>.
  \<open>upload_id\<close> is \<open>None\<close> until the assignment; \<open>if upload_id:\<close> is Python truth, so
  an empty identifier counts as none. Whatever the abort call does, \<open>raise\<close> re-raises
  \<open>e\<close>.
\<close>

definition abort_and_reraise ::
  "s3_client \<Rightarrow> string \<Rightarrow> string \<Rightarrow> string option \<Rightarrow> exn \<Rightarrow> s3_call list \<Rightarrow>
   (exn + string) \<times> s3_call list" where
  "abort_and_reraise s3 dest_bucket dest_key upload_id e calls =
     (case upload_id of
        None \<Rightarrow> (Inl e, calls)
      | Some uid \<Rightarrow>
          if uid \<noteq> [] then
            let call = AbortMultipartUpload dest_bucket dest_key uid in
            (case api_abort_multipart_upload s3 calls call of
               Inl abort_failure \<Rightarrow> (Inl e, calls @ [call])
             | Inr u \<Rightarrow> (Inl e, calls @ [call]))
          else (Inl e, calls))"

text \<open>The body of \<open>multipart_copy\<close>.\<close>

definition multipart_copy_body ::
  "s3_client \<Rightarrow> string \<Rightarrow> string \<Rightarrow> string \<Rightarrow> string \<Rightarrow> int \<Rightarrow> string \<Rightarrow> int \<Rightarrow>
   s3_call list \<Rightarrow> (exn + string) \<times> s3_call list" where
  "multipart_copy_body s3 source_bucket source_key dest_bucket dest_key object_size kms_key_id
     part_size calls =
     (if object_size > MAX_OBJECT_SIZE then
        (Inl (Raised ObjectTooLargeError
               (''Object '' @ source_key @ '' size '' @ str_int object_size @ '' exceeds max ''
                 @ str_int MAX_OBJECT_SIZE) NoDetails), calls)
      else
        let create = CreateMultipartUpload dest_bucket dest_key kms_key_id in
        case api_create_multipart_upload s3 calls create of
          Inl e \<Rightarrow> abort_and_reraise s3 dest_bucket dest_key None e (calls @ [create])
        | Inr upload_id \<Rightarrow>
            (case num_parts object_size part_size of
               Inl e \<Rightarrow>
                 abort_and_reraise s3 dest_bucket dest_key (Some upload_id) e (calls @ [create])
             | Inr n \<Rightarrow>
                 (case copy_parts s3 dest_bucket dest_key upload_id
                         (source_bucket @ ''/'' @ source_key) object_size part_size [1..n] []
                         (calls @ [create]) of
                    (Inl e, calls2) \<Rightarrow>
                      abort_and_reraise s3 dest_bucket dest_key (Some upload_id) e calls2
                  | (Inr parts, calls2) \<Rightarrow>
                      let complete = CompleteMultipartUpload dest_bucket dest_key upload_id parts in
                      (case api_complete_multipart_upload s3 calls2 complete of
                         Inl e \<Rightarrow>
                           abort_and_reraise s3 dest_bucket dest_key (Some upload_id) e
                             (calls2 @ [complete])
                       | Inr result \<Rightarrow> (Inr result, calls2 @ [complete])))))"

definition multipart_copy ::
  "(nat \<Rightarrow> real) \<Rightarrow> s3_client \<Rightarrow> string \<Rightarrow> string \<Rightarrow> string \<Rightarrow> string \<Rightarrow> int \<Rightarrow> string \<Rightarrow> int \<Rightarrow>
   s3_call list \<Rightarrow> (exn + string) \<times> s3_call list retry_state" where
  "multipart_copy rnd s3 source_bucket source_key dest_bucket dest_key object_size kms_key_id
     part_size =
     exponential_backoff_with_jitter s3_retry_params rnd
       (multipart_copy_body s3 source_bucket source_key dest_bucket dest_key object_size
          kms_key_id part_size)"

section \<open>STS client (common/sts_client.py)\<close>

record credentials =
  aws_access_key_id :: string
  aws_secret_access_key :: string
  aws_session_token :: string

text \<open>An entry of \<open>_credential_cache\<close>: the dict with keys \<open>credentials\<close> and \<open>expiry\<close>.\<close>

record cache_entry =
  cached_credentials :: credentials
  expiry :: real

text \<open>
  The call \<open>sts_client.assume_role(**kwargs)\<close>: \<open>RoleArn\<close>, \<open>RoleSessionName\<close>,
  \<open>DurationSeconds\<close>, and \<open>ExternalId\<close> when it is passed. Its response is
  \<open>response["Credentials"]\<close>, with \<open>Expiration\<close> as the timestamp the code stores.
\<close>

datatype sts_call = AssumeRole string string int "string option"

record sts_response =
  AccessKeyId :: string
  SecretAccessKey :: string
  SessionToken :: string
  Expiration :: real

text \<open>
  The state \<open>assume_role\<close> acts on: the module's cache, the remote calls made so far,
  and how often \<open>time.time()\<close> was read (the \<open>k\<close>-th read returns \<open>time_time k\<close>).
\<close>

record sts_world =
  credential_cache :: "string \<rightharpoonup> cache_entry"
  sts_calls :: "sts_call list"
  clock_reads :: nat

definition CREDENTIAL_BUFFER_SECONDS :: real where
  "CREDENTIAL_BUFFER_SECONDS = 300"

definition is_cached_credential_valid ::
  "(nat \<Rightarrow> real) \<Rightarrow> string \<Rightarrow> sts_world \<Rightarrow> bool \<times> sts_world" where
  "is_cached_credential_valid time_time role_arn w =
     (case credential_cache w role_arn of
        None \<Rightarrow> (False, w)
      | Some entry \<Rightarrow>
          (time_time (clock_reads w) < expiry entry - CREDENTIAL_BUFFER_SECONDS,
           w\<lparr>clock_reads := Suc (clock_reads w)\<rparr>))"

text \<open>
  The handler \<open>except sts_client.exceptions.ClientError as e\<close> of \<open>assume_role\<close>: the
  exception it raises for error code \<open>error_code\<close> and \<open>str(e) = text\<close>.
\<close>

definition classify_sts_error :: "string \<Rightarrow> string \<Rightarrow> string \<Rightarrow> exn" where
  "classify_sts_error role_arn error_code text =
     (if error_code \<in> set [''AccessDenied'', ''AccessDeniedException'']
      then Raised AccessDeniedError (''Access denied assuming role '' @ role_arn @ '': '' @ text)
             (StsDetails role_arn error_code)
      else Raised RetryableError (''STS error assuming role '' @ role_arn @ '': '' @ text)
             (StsDetails role_arn error_code))"

text \<open>The body of \<open>assume_role\<close>; \<open>sts\<close> is the STS service, as \<open>s3_client\<close> is S3.\<close>

definition assume_role_body ::
  "(nat \<Rightarrow> real) \<Rightarrow> (sts_call list \<Rightarrow> sts_call \<Rightarrow> exn + sts_response) \<Rightarrow>
   string \<Rightarrow> string \<Rightarrow> string \<Rightarrow> int \<Rightarrow> sts_world \<Rightarrow> (exn + credentials) \<times> sts_world" where
  "assume_role_body time_time sts role_arn session_name external_id duration_seconds w =
     (case is_cached_credential_valid time_time role_arn w of
        (True, w1) \<Rightarrow>
          (case credential_cache w1 role_arn of
             Some entry \<Rightarrow> (Inr (cached_credentials entry), w1)
           | None \<Rightarrow> (Inl (Raised PyKeyError role_arn NoDetails), w1))
      | (False, w1) \<Rightarrow>
          let call = AssumeRole role_arn session_name duration_seconds
                       (if external_id \<noteq> [] then Some external_id else None);
              w2 = w1\<lparr>sts_calls := sts_calls w1 @ [call]\<rparr>
          in (case sts (sts_calls w1) call of
               Inr raw_creds \<Rightarrow>
                 let creds = \<lparr>aws_access_key_id = AccessKeyId raw_creds,
                              aws_secret_access_key = SecretAccessKey raw_creds,
                              aws_session_token = SessionToken raw_creds\<rparr>
                 in (Inr creds,
                     w2\<lparr>credential_cache := (credential_cache w2)
                          (role_arn \<mapsto> \<lparr>cached_credentials = creds, expiry = Expiration raw_creds\<rparr>)\<rparr>)
             | Inl (BotoClientError error_code text) \<Rightarrow>
                 (Inl (classify_sts_error role_arn error_code text), w2)
             | Inl e \<Rightarrow> (Inl e, w2)))"

definition sts_retry_params :: retry_params where
  "sts_retry_params =
     \<lparr>max_attempts = 3, base_delay = 1, max_delay = 10, retryable_exceptions = [RetryableError]\<rparr>"

definition assume_role ::
  "(nat \<Rightarrow> real) \<Rightarrow> (nat \<Rightarrow> real) \<Rightarrow> (sts_call list \<Rightarrow> sts_call \<Rightarrow> exn + sts_response) \<Rightarrow>
   string \<Rightarrow> string \<Rightarrow> string \<Rightarrow> int \<Rightarrow> sts_world \<Rightarrow>
   (exn + credentials) \<times> sts_world retry_state" where
  "assume_role rnd time_time sts role_arn session_name external_id duration_seconds =
     exponential_backoff_with_jitter sts_retry_params rnd
       (assume_role_body time_time sts role_arn session_name external_id duration_seconds)"

section \<open>Configuration (common/config.py)\<close>

record transfer_config =
  cfg_source_role_arn :: string
  cfg_destination_role_arn :: string
  cfg_external_id :: string
  cfg_source_bucket :: string
  cfg_destination_bucket :: string
  cfg_source_prefix :: string
  cfg_destination_prefix :: string
  cfg_manifest_bucket :: string
  cfg_source_kms_key_id :: string
  cfg_destination_kms_key_id :: string
  cfg_multipart_threshold_bytes :: int
  cfg_multipart_chunk_size_bytes :: int
  cfg_max_retry_attempts :: int
  cfg_retry_base_delay :: real
  cfg_retry_max_delay :: real
  cfg_validation_sample_size :: int
  cfg_sns_topic_arn :: string

text \<open>The defaults of the dataclass, which \<open>from_env\<close> uses for a variable that is not set.\<close>

definition default_config :: transfer_config where
  "default_config =
     \<lparr>cfg_source_role_arn = '''', cfg_destination_role_arn = '''', cfg_external_id = '''',
      cfg_source_bucket = '''', cfg_destination_bucket = '''', cfg_source_prefix = '''',
      cfg_destination_prefix = '''', cfg_manifest_bucket = '''', cfg_source_kms_key_id = '''',
      cfg_destination_kms_key_id = '''',
      cfg_multipart_threshold_bytes = 5 * 1024 * 1024 * 1024,
      cfg_multipart_chunk_size_bytes = 100 * 1024 * 1024,
      cfg_max_retry_attempts = 5, cfg_retry_base_delay = 1, cfg_retry_max_delay = 60,
      cfg_validation_sample_size = 10, cfg_sns_topic_arn = ''''\<rparr>"

section \<open>Destination keys (both handlers)\<close>

text \<open>\<open>s.startswith(p)\<close> and \<open>d.get(key, default)\<close>.\<close>

definition startswith :: "string \<Rightarrow> string \<Rightarrow> bool" where
  "startswith s p = (take (length p) s = p)"

definition dict_get :: "'a option \<Rightarrow> 'a \<Rightarrow> 'a" where
  "dict_get v fallback = (case v of None \<Rightarrow> fallback | Some x \<Rightarrow> x)"

text \<open>
  The destination key of a source key: lines 47-53 of \<open>transfer_object/handler.py\<close> and,
  with the same text, lines 115-120 of \<open>validate_transfer/handler.py\<close>.
\<close>

definition relative_key_of :: "string \<Rightarrow> string \<Rightarrow> string" where
  "relative_key_of source_prefix source_key =
     (if source_prefix \<noteq> [] \<and> startswith source_key source_prefix
      then drop (length source_prefix) source_key
      else source_key)"

definition dest_key_of :: "string \<Rightarrow> string \<Rightarrow> string \<Rightarrow> string" where
  "dest_key_of source_prefix dest_prefix source_key =
     (let relative_key = relative_key_of source_prefix source_key
      in if dest_prefix \<noteq> [] then dest_prefix @ relative_key else relative_key)"

section \<open>TransferObject handler (transfer_object/handler.py)\<close>

text \<open>
  The input event: \<open>Key\<close> and \<open>Size\<close> are read with \<open>event[...]\<close>, the others with
  \<open>event.get\<close>, so they may be absent.
\<close>

record transfer_event =
  ev_Key :: string
  ev_Size :: int
  ev_source_bucket :: "string option"
  ev_destination_bucket :: "string option"
  ev_destination_prefix :: "string option"
  ev_source_prefix :: "string option"
  ev_execution_id :: "string option"

record transfer_result =
  tr_status :: string
  tr_source_key :: string
  tr_dest_key :: string
  tr_size :: int

text \<open>
  The handler. \<open>assume_role_call role_arn session_name external_id\<close> is how the call of
  \<open>assume_role\<close> ends; \<open>s3\<close> is the client \<open>get_boto3_client\<close> builds from the
  credentials. The result comes with the calls made on that client.
\<close>

definition transfer_handler ::
  "transfer_config \<Rightarrow> (string \<Rightarrow> string \<Rightarrow> string \<Rightarrow> exn + credentials) \<Rightarrow> (nat \<Rightarrow> real) \<Rightarrow>
   s3_client \<Rightarrow> transfer_event \<Rightarrow> (exn + transfer_result) \<times> s3_call list" where
  "transfer_handler config assume_role_call rnd s3 event =
     (let source_key = ev_Key event;
          object_size = ev_Size event;
          source_bucket = dict_get (ev_source_bucket event) (cfg_source_bucket config);
          dest_bucket = dict_get (ev_destination_bucket event) (cfg_destination_bucket config);
          dest_prefix = dict_get (ev_destination_prefix event) (cfg_destination_prefix config);
          execution_id = dict_get (ev_execution_id event) ''unknown'';
          source_prefix = dict_get (ev_source_prefix event) (cfg_source_prefix config);
          dest_key = dest_key_of source_prefix dest_prefix source_key
      in case assume_role_call (cfg_destination_role_arn config)
                (''Transfer-'' @ take 8 execution_id) (cfg_external_id config) of
           Inl e \<Rightarrow> (Inl e, [])
         | Inr creds \<Rightarrow>
             (case (if object_size < cfg_multipart_threshold_bytes config
                    then copy_object rnd s3 source_bucket source_key dest_bucket dest_key
                           (cfg_destination_kms_key_id config) []
                    else multipart_copy rnd s3 source_bucket source_key dest_bucket dest_key
                           object_size (cfg_destination_kms_key_id config)
                           (cfg_multipart_chunk_size_bytes config) []) of
                (Inl e, st) \<Rightarrow> (Inl e, world st)
              | (Inr response, st) \<Rightarrow>
                  (Inr \<lparr>tr_status = ''SUCCESS'', tr_source_key = source_key,
                        tr_dest_key = dest_key, tr_size = object_size\<rparr>,
                   world st)))"

section \<open>ValidateTransfer handler (validate_transfer/handler.py)\<close>

text \<open>An entry of the manifest's \<open>objects\<close>, and the manifest as the handler reads it.\<close>

record inventory_entry =
  obj_Key :: string
  obj_Size :: int
  obj_ETag :: string

record manifest =
  m_objects :: "inventory_entry list"
  m_source_prefix :: "string option"

record validate_event =
  vev_manifest_bucket :: string
  vev_manifest_key :: string
  vev_execution_id :: "string option"
  vev_destination_bucket :: "string option"
  vev_destination_prefix :: "string option"

text \<open>
  \<open>random.sample(population, k)\<close>: \<open>k\<close> draws without replacement. As CPython does for
  a small population, draw \<open>i\<close> takes the element at a random index of the pool and moves
  the pool's last element into its place. \<open>pick i\<close> is the random number of draw \<open>i\<close>, reduced below the size of
  the pool. A negative \<open>k\<close> or one above the population's size is a \<open>ValueError\<close>.
\<close>

fun sample_pool :: "(nat \<Rightarrow> nat) \<Rightarrow> nat \<Rightarrow> 'a list \<Rightarrow> nat \<Rightarrow> 'a list" where
  "sample_pool pick i pool 0 = []"
| "sample_pool pick i [] (Suc k) = []"
| "sample_pool pick i (x # xs) (Suc k) =
     (let pool = x # xs; j = pick i mod length pool
      in pool ! j # sample_pool pick (Suc i) (butlast (pool[j := last pool])) k)"

definition random_sample :: "(nat \<Rightarrow> nat) \<Rightarrow> 'a list \<Rightarrow> int \<Rightarrow> exn + 'a list" where
  "random_sample pick population k =
     (if 0 \<le> k \<and> k \<le> int (length population)
      then Inr (sample_pool pick 0 population (nat k))
      else Inl (Raised PyValueError ''Sample larger than population or is negative'' NoDetails))"

text \<open>\<open>samples = random.sample(objects, sample_size) if objects else []\<close>.\<close>

definition draw_samples :: "(nat \<Rightarrow> nat) \<Rightarrow> 'a list \<Rightarrow> int \<Rightarrow> exn + 'a list" where
  "draw_samples pick objects sample_size =
     (if objects \<noteq> [] then random_sample pick objects sample_size else Inr [])"

text \<open>
  The loop \<open>for page in paginator.paginate(...)\<close>: each page either arrives, with its
  \<open>KeyCount\<close> if it has one, or the listing raises.
\<close>

fun count_pages :: "(exn + int option) list \<Rightarrow> int \<Rightarrow> exn + int" where
  "count_pages [] dest_count = Inr dest_count"
| "count_pages (page # pages) dest_count =
     (case page of
        Inl e \<Rightarrow> Inl e
      | Inr key_count \<Rightarrow> count_pages pages (dest_count + dict_get key_count 0))"

text \<open>
  The loop \<open>for obj in samples\<close>, over the samples still to check, with \<open>failures\<close> and
  \<open>samples_passed\<close> (here \<open>fails\<close> and \<open>passed\<close>) as they stand and the calls made on the client so far.
\<close>

fun check_samples ::
  "(nat \<Rightarrow> real) \<Rightarrow> s3_client \<Rightarrow> string \<Rightarrow> string \<Rightarrow> string \<Rightarrow> inventory_entry list \<Rightarrow>
   sample_failure list \<Rightarrow> int \<Rightarrow> s3_call list \<Rightarrow> (sample_failure list \<times> int) \<times> s3_call list" where
  "check_samples rnd s3 source_prefix dest_prefix dest_bucket [] fails passed calls =
     ((fails, passed), calls)"
| "check_samples rnd s3 source_prefix dest_prefix dest_bucket (obj # rest) fails
     passed calls =
     (let source_key = obj_Key obj;
          expected_size = obj_Size obj;
          dest_key = dest_key_of source_prefix dest_prefix source_key;
          probe = head_object rnd s3 dest_bucket dest_key calls
      in case fst probe of
           Inr dest_meta \<Rightarrow>
             if ContentLength dest_meta = expected_size
             then check_samples rnd s3 source_prefix dest_prefix dest_bucket rest fails
                    (passed + 1) (world (snd probe))
             else check_samples rnd s3 source_prefix dest_prefix dest_bucket rest
                    (fails @ [\<lparr>f_key = dest_key, f_expected_size = expected_size,
                                   f_actual_size = Some (ContentLength dest_meta),
                                   f_reason = ''size_mismatch''\<rparr>])
                    passed (world (snd probe))
         | Inl e \<Rightarrow>
             check_samples rnd s3 source_prefix dest_prefix dest_bucket rest
               (fails @ [\<lparr>f_key = dest_key, f_expected_size = expected_size,
                              f_actual_size = None,
                              f_reason = ''head_object_failed: '' @ exn_str e\<rparr>])
               passed (world (snd probe)))"

text \<open>
  What the handler's surroundings do: reading and parsing the manifest, the call of
  \<open>assume_role\<close>, the pages of the destination listing, the client built from the
  credentials, and the two uses of \<open>random\<close>.
\<close>

record validate_env =
  read_manifest :: "exn + manifest"
  env_assume_role :: "string \<Rightarrow> string \<Rightarrow> string \<Rightarrow> exn + credentials"
  dest_pages :: "(exn + int option) list"
  dest_s3 :: s3_client
  env_rnd :: "nat \<Rightarrow> real"
  env_pick :: "nat \<Rightarrow> nat"

text \<open>The dict \<open>result\<close> and the message of the \<open>ValidationError\<close>.\<close>

definition validation_result_of ::
  "int \<Rightarrow> int \<Rightarrow> int \<Rightarrow> int \<Rightarrow> sample_failure list \<Rightarrow> string \<Rightarrow> string \<Rightarrow> string \<Rightarrow> string \<Rightarrow>
   validation_result" where
  "validation_result_of total_exp dest_count sample_size passed fails exec_id m_bucket m_key
     d_bucket =
     \<lparr>status = (if dest_count \<ge> total_exp \<and> fails = [] then PASSED else FAILED),
      total_expected = total_exp,
      total_found = dest_count,
      samples_checked = sample_size,
      samples_passed = passed,
      failures = fails,
      execution_id = exec_id,
      manifest_bucket = m_bucket,
      manifest_key = m_key,
      destination_bucket = d_bucket\<rparr>"

definition validation_failed :: "validation_result \<Rightarrow> exn" where
  "validation_failed result =
     Raised ValidationError
       (''Transfer validation failed: expected '' @ str_int (total_expected result)
          @ '', found '' @ str_int (total_found result) @ '', ''
          @ str_int (int (length (failures result))) @ '' sample failures'')
       (ResultDetails result)"

definition validate_handler ::
  "transfer_config \<Rightarrow> validate_env \<Rightarrow> validate_event \<Rightarrow> exn + validation_result" where
  "validate_handler config env event =
     (let exec_id = dict_get (vev_execution_id event) ''unknown'';
          m_bucket = vev_manifest_bucket event;
          m_key = vev_manifest_key event
      in (case read_manifest env of
           Inl e \<Rightarrow>
             Inl (Raised NonRetryableError
                    (''Failed to read manifest from s3://'' @ m_bucket @ ''/'' @ m_key @ '': ''
                       @ exn_str e) NoDetails)
         | Inr mf \<Rightarrow>
             let objects = m_objects mf;
                 total_exp = int (length objects);
                 source_prefix = dict_get (m_source_prefix mf) (cfg_source_prefix config);
                 dest_prefix = dict_get (vev_destination_prefix event) (cfg_destination_prefix config);
                 dest_bucket = dict_get (vev_destination_bucket event) (cfg_destination_bucket config)
             in (case env_assume_role env (cfg_destination_role_arn config)
                       (''Validate-'' @ take 8 exec_id) (cfg_external_id config) of
                  Inl e \<Rightarrow> Inl e
                | Inr dest_credentials \<Rightarrow>
                    (case count_pages (dest_pages env) 0 of
                       Inl e \<Rightarrow>
                         Inl (Raised NonRetryableError
                                (''Failed to list destination objects: '' @ exn_str e) NoDetails)
                     | Inr dest_count \<Rightarrow>
                         let sample_size = min (cfg_validation_sample_size config) total_exp
                         in (case draw_samples (env_pick env) objects sample_size of
                              Inl e \<Rightarrow> Inl e
                            | Inr samples \<Rightarrow>
                                (case check_samples (env_rnd env) (dest_s3 env) source_prefix
                                        dest_prefix dest_bucket samples [] 0 [] of
                                   ((fails, passed), calls) \<Rightarrow>
                                     let result = validation_result_of total_exp dest_count
                                                    sample_size passed fails exec_id m_bucket
                                                    m_key dest_bucket
                                     in if status result = FAILED
                                        then Inl (validation_failed result)
                                        else Inr result))))))"

section \<open>Observations on a run\<close>

text \<open>The bytes a range \<open>(start, end)\<close> covers, both ends included.\<close>

definition byte_range :: "int \<times> int \<Rightarrow> int list" where
  "byte_range r = [fst r..snd r]"

text \<open>
  The \<open>UploadPartCopy\<close> call of part \<open>part_num\<close>, as the loop of \<open>multipart_copy\<close> issues
  it.
\<close>

definition upload_call ::
  "string \<Rightarrow> string \<Rightarrow> string \<Rightarrow> string \<Rightarrow> int \<Rightarrow> int \<Rightarrow> int \<Rightarrow> s3_call" where
  "upload_call dest_bucket dest_key upload_id copy_source object_size part_size part_num =
     UploadPartCopy dest_bucket dest_key upload_id part_num copy_source
       (fst (part_range object_size part_size part_num))
       (snd (part_range object_size part_size part_num))"



text \<open>Whether a call belongs to the multipart life cycle.\<close>

fun is_multipart_call :: "s3_call \<Rightarrow> bool" where
  "is_multipart_call (CreateMultipartUpload b k kms) = True"
| "is_multipart_call (UploadPartCopy b k u n src s e) = True"
| "is_multipart_call (CompleteMultipartUpload b k u parts) = True"
| "is_multipart_call (AbortMultipartUpload b k u) = True"
| "is_multipart_call (CopyObject sb sk db dk kms) = False"
| "is_multipart_call (HeadObject b k) = False"

text \<open>
  The condition under which \<open>assume_role\<close> answers from the cache: the role has an
  entry, and the time read now is before the entry's expiry minus the buffer.
\<close>

definition cache_hit :: "(nat \<Rightarrow> real) \<Rightarrow> string \<Rightarrow> sts_world \<Rightarrow> bool" where
  "cache_hit time_time role_arn w =
     (case credential_cache w role_arn of
        None \<Rightarrow> False
      | Some entry \<Rightarrow> time_time (clock_reads w) < expiry entry - 300)"

section \<open>Example inputs\<close>

text \<open>
  A destination that holds two objects of five bytes each, and a manifest of two objects
  of which the second is recorded with seven bytes.
\<close>

definition example_s3 :: s3_client where
  "example_s3 =
     \<lparr>api_create_multipart_upload = (\<lambda>h c. Inr ''upload-1''),
      api_upload_part_copy = (\<lambda>h c. Inr ''etag''),
      api_complete_multipart_upload = (\<lambda>h c. Inr ''done''),
      api_abort_multipart_upload = (\<lambda>h c. Inr ()),
      api_copy_object = (\<lambda>h c. Inr ''copied''),
      api_head_object =
        (\<lambda>h c. Inr \<lparr>ContentLength = 5, ETag = ''etag'', LastModified = ''2024-01-01''\<rparr>)\<rparr>"

definition example_manifest :: manifest where
  "example_manifest =
     \<lparr>m_objects =
        [\<lparr>obj_Key = ''data/a.txt'', obj_Size = 5, obj_ETag = ''e1''\<rparr>,
         \<lparr>obj_Key = ''data/b.txt'', obj_Size = 7, obj_ETag = ''e2''\<rparr>],
      m_source_prefix = Some ''data/''\<rparr>"

definition example_env :: validate_env where
  "example_env =
     \<lparr>read_manifest = Inr example_manifest,
      env_assume_role =
        (\<lambda>role_arn session_name external_id.
           Inr \<lparr>aws_access_key_id = ''AKIA'', aws_secret_access_key = ''secret'',
                 aws_session_token = ''token''\<rparr>),
      dest_pages = [Inr (Some 2)],
      dest_s3 = example_s3,
      env_rnd = (\<lambda>k. 1 / 2),
      env_pick = (\<lambda>i. 0)\<rparr>"

definition example_validate_event :: validate_event where
  "example_validate_event =
     \<lparr>vev_manifest_bucket = ''manifests'', vev_manifest_key = ''m.json'',
      vev_execution_id = Some ''exec-1'', vev_destination_bucket = Some ''dst'',
      vev_destination_prefix = Some ''out/''\<rparr>"

text \<open>
  Two events for the TransferObject handler, an object of 10 MiB and one of 6 GiB, and a
  role assumption that succeeds.
\<close>

definition example_assume_role :: "string \<Rightarrow> string \<Rightarrow> string \<Rightarrow> exn + credentials" where
  "example_assume_role role_arn session_name external_id =
     Inr \<lparr>aws_access_key_id = ''AKIA'', aws_secret_access_key = ''secret'',
           aws_session_token = ''token''\<rparr>"

definition example_small_event :: transfer_event where
  "example_small_event =
     \<lparr>ev_Key = ''data/a.txt'', ev_Size = 10 * 1024 * 1024, ev_source_bucket = Some ''src'',
      ev_destination_bucket = Some ''dst'', ev_destination_prefix = Some ''out/'',
      ev_source_prefix = Some ''data/'', ev_execution_id = Some ''exec-1''\<rparr>"

definition example_large_event :: transfer_event where
  "example_large_event =
     \<lparr>ev_Key = ''data/a.txt'', ev_Size = 6 * 1024 * 1024 * 1024, ev_source_bucket = Some ''src'',
      ev_destination_bucket = Some ''dst'', ev_destination_prefix = Some ''out/'',
      ev_source_prefix = Some ''data/'', ev_execution_id = Some ''exec-1''\<rparr>"

chapter \<open>Properties\<close>

section \<open>Backoff retrier\<close>



lemma funpow_shift: "(f ^^ n) (f x) = (f ^^ Suc n) x"
  by (simp add: funpow_swap1)







text \<open>
  C5. An exception that is not one of \<open>retryable_exceptions\<close> leaves the wrapper at the
  invocation that raised it: when the first invocation raises it, the function has been
  invoked once, nothing was slept, and the exception itself is what the wrapper raises,
  whatever \<open>max_attempts \<ge> 1\<close> is.
\<close>

theorem retrier_fails_fast:
  fixes func :: "'w \<Rightarrow> (exn + 'a) \<times> 'w"
  assumes "1 \<le> max_attempts P"
    and "func w = (Inl e, w')"
    and "\<not> isinstance e (retryable_exceptions P)"
  shows "exponential_backoff_with_jitter P rnd func w =
           (Inl e, \<lparr>world = w', invocations = 1, sleeps = []\<rparr>)"
proof -
  have "[0..<nat (max_attempts P)] = 0 # [1..<nat (max_attempts P)]"
    using assms(1) by (simp add: upt_rec)
  then show ?thesis
    using assms(2,3) by (simp add: exponential_backoff_with_jitter_def)
qed

theorem retrier_fails_fast_witness:
  "exponential_backoff_with_jitter
      \<lparr>max_attempts = 5, base_delay = 1, max_delay = 60, retryable_exceptions = [RetryableError]\<rparr>
      (\<lambda>k. 1 / 2)
      (\<lambda>n::nat. (Inl (Raised AccessDeniedError ''access denied'' NoDetails) :: exn + unit, Suc n))
      0
    = (Inl (Raised AccessDeniedError ''access denied'' NoDetails),
       \<lparr>world = 1, invocations = 1, sleeps = []\<rparr>)"
  by (rule retrier_fails_fast) (simp_all add: isinstance_def)

section \<open>Python's true division of integers\<close>

lemma pow2_powr: "pow2 k = 2 powr (real_of_int k)"
  by (simp add: pow2_def powr_real_of_int)

lemma pow2_pos: "0 < pow2 k"
  by (simp add: pow2_powr)

lemma pow2_add: "pow2 (i + j) = pow2 i * pow2 j"
  by (simp add: pow2_powr powr_add)

lemma pow2_mono: "i \<le> j \<Longrightarrow> pow2 i \<le> pow2 j"
  by (simp add: pow2_powr)

lemma pow2_less_iff: "pow2 i < pow2 j \<longleftrightarrow> i < j"
  by (simp add: pow2_powr)

lemma pow2_nat: "0 \<le> k \<Longrightarrow> pow2 k = 2 ^ nat k"
  by (simp add: pow2_def)

lemma bitlen_pow2_bounds:
  assumes "0 < a"
  shows "pow2 (bitlen a - 1) \<le> real_of_int a" and "real_of_int a < pow2 (bitlen a)"
proof -
  have b: "2 ^ nat (bitlen a - 1) \<le> a" "a < 2 ^ nat (bitlen a)"
    using bitlen_bounds[OF assms] by simp_all
  have ge1: "1 \<le> bitlen a" using assms by (simp add: bitlen_alt_def)
  have "real_of_int (2 ^ nat (bitlen a - 1)) \<le> real_of_int a"
    using b(1) by (rule of_int_le_iff[THEN iffD2])
  then show "pow2 (bitlen a - 1) \<le> real_of_int a"
    using ge1 by (simp add: pow2_nat)
  have "real_of_int a < real_of_int (2 ^ nat (bitlen a))"
    using b(2) by (rule of_int_less_iff[THEN iffD2])
  then show "real_of_int a < pow2 (bitlen a)"
    using ge1 by (simp add: pow2_nat)
qed

lemma quotient_exponent_bounds:
  assumes "0 < a" and "0 < b"
  shows "pow2 (quotient_exponent a b) \<le> real_of_int a / real_of_int b"
    and "real_of_int a / real_of_int b < pow2 (quotient_exponent a b + 1)"
proof -
  define d where "d = bitlen a - bitlen b"
  have bpos: "0 < real_of_int b" using assms(2) by simp
  have a1: "pow2 (bitlen a - 1) \<le> real_of_int a" and a2: "real_of_int a < pow2 (bitlen a)"
    using bitlen_pow2_bounds[OF assms(1)] by simp_all
  have b1: "pow2 (bitlen b - 1) \<le> real_of_int b" and b2: "real_of_int b < pow2 (bitlen b)"
    using bitlen_pow2_bounds[OF assms(2)] by simp_all
  have up: "real_of_int a < pow2 (d + 1) * real_of_int b"
  proof -
    have "pow2 (bitlen a) = pow2 (d + 1) * pow2 (bitlen b - 1)"
      unfolding pow2_add[symmetric] d_def by simp
    also have "\<dots> \<le> pow2 (d + 1) * real_of_int b"
      using b1 pow2_pos[of "d + 1"] by simp
    finally show ?thesis using a2 by simp
  qed
  have low: "pow2 (d - 1) * real_of_int b \<le> real_of_int a"
  proof -
    have "pow2 (d - 1) * real_of_int b \<le> pow2 (d - 1) * pow2 (bitlen b)"
      using b2 pow2_pos[of "d - 1"] by simp
    also have "\<dots> = pow2 (bitlen a - 1)"
      unfolding pow2_add[symmetric] d_def by simp
    finally show ?thesis using a1 by simp
  qed
  show "pow2 (quotient_exponent a b) \<le> real_of_int a / real_of_int b"
    using low bpos
    by (simp add: quotient_exponent_def d_def[symmetric] Let_def pos_le_divide_eq)
  show "real_of_int a / real_of_int b < pow2 (quotient_exponent a b + 1)"
    using up bpos
    by (simp add: quotient_exponent_def d_def[symmetric] Let_def pos_divide_less_eq not_le)
qed

lemma round_half_even_error: "\<bar>real_of_int (round_half_even m) - m\<bar> \<le> 1 / 2"
proof -
  have "real_of_int \<lfloor>m\<rfloor> \<le> m" "m < real_of_int \<lfloor>m\<rfloor> + 1" by linarith+
  then show ?thesis
    by (auto simp: round_half_even_def Let_def)
qed

lemma round_half_even_int: "round_half_even (real_of_int k) = k"
  by (simp add: round_half_even_def)

lemma div_le_self_real:
  assumes "0 < a" and "0 < b"
  shows "real_of_int a / real_of_int b \<le> real_of_int a"
proof -
  have "1 \<le> real_of_int b" using assms(2) by simp
  then have "real_of_int a * 1 \<le> real_of_int a * real_of_int b"
    using assms(1) by (intro mult_left_mono) simp_all
  then show ?thesis using assms(2) by (simp add: pos_divide_le_eq)
qed

lemma half_quantum: "pow2 (e - 52) / 2 = pow2 e / 2 ^ 53"
proof -
  have "pow2 (e - 52) = pow2 e * pow2 (- 52)"
    unfolding pow2_add[symmetric] by simp
  then show ?thesis by (simp add: pow2_def)
qed

lemma scaled_error:
  fixes q r x :: real
  assumes "0 < q" and "\<bar>r - x / q\<bar> \<le> 1 / 2"
  shows "\<bar>r * q - x\<bar> \<le> q / 2"
proof -
  have "r * q - x = (r - x / q) * q" using assms(1) by (simp add: field_simps)
  then have "\<bar>r * q - x\<bar> = \<bar>r - x / q\<bar> * q"
    using assms(1) by (simp add: abs_mult)
  also have "\<dots> \<le> 1 / 2 * q"
    using assms by (intro mult_right_mono) simp_all
  finally show ?thesis by simp
qed

lemma round_to_double_ceiling:
  assumes a: "0 < a" "a < 2 ^ 53" and b: "0 < b" "b \<le> 2 ^ 1022"
  shows "\<lceil>round_to_double a b\<rceil> = \<lceil>real_of_int a / real_of_int b\<rceil>"
    and "round_to_double a b \<le> real_of_int \<lceil>real_of_int a / real_of_int b\<rceil>"
proof -
  define x where "x = real_of_int a / real_of_int b"
  define e where "e = quotient_exponent a b"
  define q where "q = pow2 (e - 52)"
  define y where "y = round_to_double a b"
  define n where "n = \<lceil>x\<rceil>"
  have bpos: "0 < real_of_int b" using b(1) by simp
  have e1: "pow2 e \<le> x" and e2: "x < pow2 (e + 1)"
    using quotient_exponent_bounds[OF a(1) b(1)] by (simp_all add: x_def e_def)
  have inv: "1 / real_of_int b \<le> x"
    using a(1) bpos by (simp add: x_def divide_le_cancel)
  have "real_of_int b \<le> real_of_int (2 ^ 1022)"
    using b(2) by (rule of_int_le_iff[THEN iffD2])
  then have "pow2 (- 1022) \<le> 1 / real_of_int b"
    using bpos by (simp add: pow2_def field_simps)
  then have "pow2 (- 1022) < pow2 (e + 1)" using inv e2 by linarith
  then have normal: "- 1022 \<le> e" by (simp add: pow2_less_iff)
  have "real_of_int a < real_of_int (2 ^ 53)"
    using a(2) by (rule of_int_less_iff[THEN iffD2])
  then have a53: "real_of_int a < 2 ^ 53" by simp
  have xa: "x \<le> real_of_int a"
    unfolding x_def by (rule div_le_self_real[OF a(1) b(1)])
  have "pow2 e < pow2 53" using e1 xa a53 by (simp add: pow2_def)
  then have e52: "e \<le> 52" by (simp add: pow2_less_iff)
  have qpos: "0 < q" by (simp add: q_def pow2_pos)
  have y: "y = real_of_int (round_half_even (x / q)) * q"
    using normal by (simp add: y_def round_to_double_def Let_def e_def[symmetric] q_def x_def max_def)
  have err: "\<bar>y - x\<bar> \<le> q / 2"
    unfolding y by (rule scaled_error[OF qpos round_half_even_error])
  have "q / 2 = pow2 e / 2 ^ 53" unfolding q_def by (rule half_quantum)
  also have "\<dots> \<le> x / 2 ^ 53" using e1 by (simp add: divide_right_mono)
  also have "\<dots> < 1 / real_of_int b"
    using a53 bpos by (simp add: x_def field_simps)
  finally have small: "\<bar>y - x\<bar> < 1 / real_of_int b" using err by linarith
  show "\<lceil>round_to_double a b\<rceil> = \<lceil>real_of_int a / real_of_int b\<rceil>"
    and "round_to_double a b \<le> real_of_int \<lceil>real_of_int a / real_of_int b\<rceil>"
  proof -
    have "\<lceil>y\<rceil> = n \<and> y \<le> real_of_int n"
    proof (cases "b dvd a")
      case True
      then obtain k where k: "a = b * k" by (auto simp: dvd_def)
      have xk: "x = real_of_int k" using b(1) by (simp add: x_def k)
      have "x / q = real_of_int k * pow2 (52 - e)"
      proof -
        have "pow2 (e - 52) * pow2 (52 - e) = 1"
          unfolding pow2_add[symmetric] by (simp add: pow2_def)
        then show ?thesis
          unfolding q_def xk using pow2_pos[of "e - 52"] by (simp add: field_simps)
      qed
      also have "\<dots> = real_of_int (k * 2 ^ nat (52 - e))"
        using e52 by (simp add: pow2_def)
      finally have "round_half_even (x / q) = k * 2 ^ nat (52 - e)"
        by (simp only: round_half_even_int)
      then have "y = real_of_int (k * 2 ^ nat (52 - e)) * q" unfolding y by simp
      also have "\<dots> = real_of_int k * (pow2 (52 - e) * pow2 (e - 52))"
        using e52 by (simp add: pow2_def q_def)
      also have "pow2 (52 - e) * pow2 (e - 52) = 1"
        unfolding pow2_add[symmetric] by (simp add: pow2_def)
      finally have "y = x" by (simp add: xk)
      then show ?thesis by (simp add: n_def)
    next
      case False
      define r where "r = a mod b"
      have "0 \<le> r" "r \<noteq> 0" "r < b"
        using False b(1) by (simp_all add: r_def mod_eq_0_iff_dvd)
      then have r: "0 < r" "r < b" by simp_all
      have adiv: "a = b * (a div b) + r" by (simp add: r_def)
      have "real_of_int a = real_of_int b * real_of_int (a div b) + real_of_int r"
        by (metis adiv of_int_add of_int_mult)
      then have xr: "x = real_of_int (a div b) + real_of_int r / real_of_int b"
        using bpos by (simp add: x_def field_simps)
      have lo: "real_of_int (a div b) + 1 / real_of_int b \<le> x"
        using r(1) bpos by (simp add: xr divide_le_cancel)
      have "real_of_int r \<le> real_of_int b - 1" using r(2) by linarith
      then have "real_of_int r / real_of_int b \<le> (real_of_int b - 1) / real_of_int b"
        using bpos by (simp add: divide_right_mono)
      moreover have "(real_of_int b - 1) / real_of_int b = 1 - 1 / real_of_int b"
        using bpos by (simp add: diff_divide_distrib)
      ultimately have hi: "x \<le> real_of_int (a div b) + 1 - 1 / real_of_int b"
        unfolding xr by linarith
      define c where "c = 1 / real_of_int b"
      have cpos: "0 < c" using bpos by (simp add: c_def)
      have lo': "real_of_int (a div b) + c \<le> x" and hi': "x \<le> real_of_int (a div b) + 1 - c"
        and small': "\<bar>y - x\<bar> < c"
        using lo hi small by (simp_all only: c_def)
      have "real_of_int (a div b + 1) - 1 < x" "x \<le> real_of_int (a div b + 1)"
        using lo' hi' cpos by simp_all
      then have nval: "n = a div b + 1"
        unfolding n_def by (rule ceiling_unique)
      have "real_of_int n - 1 < y" "y \<le> real_of_int n"
        using small' lo' hi' cpos unfolding nval by (simp_all add: abs_less_iff)
      then show ?thesis by (simp add: ceiling_unique)
    qed
    then show "\<lceil>round_to_double a b\<rceil> = \<lceil>real_of_int a / real_of_int b\<rceil>"
      and "round_to_double a b \<le> real_of_int \<lceil>real_of_int a / real_of_int b\<rceil>"
      by (simp_all add: y_def n_def x_def)
  qed
qed

lemma round_to_double_upper:
  assumes a: "0 < a" "a < 2 ^ 53" and b: "0 < b"
  shows "round_to_double a b \<le> real_of_int a + 1 / 2"
proof -
  define x where "x = real_of_int a / real_of_int b"
  define e where "e = max (quotient_exponent a b) (- 1022)"
  define q where "q = pow2 (e - 52)"
  have e1: "pow2 (quotient_exponent a b) \<le> x"
    using quotient_exponent_bounds[OF a(1) b] by (simp add: x_def)
  have "real_of_int a < real_of_int (2 ^ 53)"
    using a(2) by (rule of_int_less_iff[THEN iffD2])
  then have a53: "real_of_int a < 2 ^ 53" by simp
  have xa: "x \<le> real_of_int a"
    unfolding x_def by (rule div_le_self_real[OF a(1) b])
  have "pow2 (quotient_exponent a b) < pow2 53" using e1 xa a53 by (simp add: pow2_def)
  then have "quotient_exponent a b \<le> 52" by (simp add: pow2_less_iff)
  then have e52: "e - 52 \<le> 0" by (simp add: e_def)
  have qpos: "0 < q" by (simp add: q_def pow2_pos)
  have "q \<le> pow2 0" unfolding q_def using e52 by (rule pow2_mono)
  then have q1: "q \<le> 1" by (simp add: pow2_def)
  have y: "round_to_double a b = real_of_int (round_half_even (x / q)) * q"
    by (simp add: round_to_double_def Let_def e_def[symmetric] q_def x_def)
  have "\<bar>round_to_double a b - x\<bar> \<le> q / 2"
    unfolding y by (rule scaled_error[OF qpos round_half_even_error])
  then show ?thesis using q1 xa by linarith
qed

lemma round_to_double_underflow:
  assumes a: "0 < a" and b: "a * 2 ^ 1075 < b"
  shows "round_to_double a b = 0"
proof -
  define x where "x = real_of_int a / real_of_int b"
  have bpos': "0 < b"
  proof -
    have "0 \<le> a * 2 ^ 1075" using a by simp
    then show ?thesis using b by linarith
  qed
  then have bpos: "0 < real_of_int b" by simp
  have xpos: "0 < x" using a bpos by (simp add: x_def)
  have e1: "pow2 (quotient_exponent a b) \<le> x"
    using quotient_exponent_bounds[OF a bpos'] by (simp add: x_def)
  have "real_of_int (a * 2 ^ 1075) < real_of_int b"
    using b by (rule of_int_less_iff[THEN iffD2])
  then have "real_of_int a * 2 ^ 1075 < real_of_int b" by simp
  then have x1: "x * 2 ^ 1075 < 1"
    using bpos by (simp add: x_def field_simps)
  have p75: "pow2 (- 1075) * 2 ^ 1075 = 1" by (simp add: pow2_def)
  have "x < pow2 (- 1075)"
  proof (rule ccontr)
    assume "\<not> x < pow2 (- 1075)"
    then have "pow2 (- 1075) * 2 ^ 1075 \<le> x * 2 ^ 1075" by simp
    then show False using x1 p75 by linarith
  qed
  then have "pow2 (quotient_exponent a b) < pow2 (- 1075)" using e1 by linarith
  then have "quotient_exponent a b < - 1075" by (simp add: pow2_less_iff)
  then have e: "max (quotient_exponent a b) (- 1022) = - 1022" by simp
  have q: "pow2 (- 1074) * 2 ^ 1074 = 1" by (simp add: pow2_def)
  define m where "m = x / pow2 (- 1074)"
  have m: "m = x * 2 ^ 1074"
    using q pow2_pos[of "- 1074"] by (simp add: m_def field_simps)
  have "x * 2 ^ 1075 = m * 2" unfolding m by simp
  then have m2: "m < 1 / 2" using x1 by simp
  have m0: "0 < m" unfolding m using xpos by simp
  have fl: "\<lfloor>m\<rfloor> = 0" using m0 m2 by (simp add: floor_eq_iff)
  have "round_half_even m = 0" using m2 by (simp add: round_half_even_def fl Let_def)
  then show ?thesis
    by (simp add: round_to_double_def Let_def e x_def[symmetric] m_def[symmetric])
qed

section \<open>Multipart copy\<close>

lemma MAX_OBJECT_SIZE_less: "MAX_OBJECT_SIZE < 2 ^ 53"
  by (simp add: MAX_OBJECT_SIZE_def)

lemma num_parts_division_by_zero:
  "num_parts object_size 0 = Inl (Raised PyZeroDivisionError ''division by zero'' NoDetails)"
  by (simp add: num_parts_def int_true_divide_def)

lemma num_parts_exact:
  assumes size: "0 \<le> object_size" "object_size \<le> MAX_OBJECT_SIZE"
    and part: "0 < part_size" "part_size \<le> 2 ^ 1022"
  shows "num_parts object_size part_size =
           Inr \<lceil>real_of_int object_size / real_of_int part_size\<rceil>"
proof (cases "object_size = 0")
  case True
  then show ?thesis using part(1) by (simp add: num_parts_def int_true_divide_def)
next
  case False
  then have pos: "0 < object_size" using size(1) by simp
  have lt: "object_size < 2 ^ 53" using size(2) MAX_OBJECT_SIZE_less by linarith
  have up: "round_to_double object_size part_size \<le> real_of_int object_size + 1 / 2"
    by (rule round_to_double_upper[OF pos lt part(1)])
  have "real_of_int object_size < real_of_int (2 ^ 53)"
    using lt by (rule of_int_less_iff[THEN iffD2])
  then have "real_of_int object_size + 1 / 2 < 2 ^ 54" by simp
  also have "(2::real) ^ 54 \<le> 2 ^ 1024" by (rule power_increasing) simp_all
  finally have fits: "\<not> 2 ^ 1024 \<le> round_to_double object_size part_size" using up by linarith
  have "\<lceil>round_to_double object_size part_size\<rceil> =
          \<lceil>real_of_int object_size / real_of_int part_size\<rceil>"
    by (rule round_to_double_ceiling(1)[OF pos lt part])
  then show ?thesis
    using pos part(1) fits by (simp add: num_parts_def int_true_divide_def Let_def)
qed


lemma num_parts_underflow:
  assumes "0 < object_size" and "object_size * 2 ^ 1075 < part_size"
  shows "num_parts object_size part_size = Inr 0"
proof -
  have pos: "0 < part_size"
  proof -
    have "0 \<le> object_size * 2 ^ 1075" using assms(1) by simp
    then show ?thesis using assms(2) by linarith
  qed
  have "round_to_double object_size part_size = 0"
    by (rule round_to_double_underflow[OF assms])
  then show ?thesis
    using assms(1) pos by (simp add: num_parts_def int_true_divide_def Let_def)
qed

lemma num_parts_10_4: "num_parts 10 4 = Inr 3"
proof -
  have "num_parts 10 4 = Inr \<lceil>real_of_int 10 / real_of_int 4\<rceil>"
    by (rule num_parts_exact) (simp_all add: MAX_OBJECT_SIZE_def)
  also have "\<lceil>real_of_int 10 / real_of_int 4\<rceil> = 3" by (simp add: ceiling_eq_iff)
  finally show ?thesis .
qed

lemma num_parts_underflow_example: "num_parts (5 * 1024 * 1024 * 1024) (2 ^ 1120) = Inr 0"
proof -
  have "(5 * 1024 * 1024 * 1024 :: int) \<le> 2 ^ 33" by simp
  then have "(5 * 1024 * 1024 * 1024 :: int) * 2 ^ 1075 \<le> 2 ^ 33 * 2 ^ 1075"
    by (rule mult_right_mono) simp
  also have "(2::int) ^ 33 * 2 ^ 1075 = 2 ^ 1108" by (simp only: power_add[symmetric]) simp
  also have "(2::int) ^ 1108 < 2 ^ 1120" by (rule power_strict_increasing) simp_all
  finally show ?thesis by (intro num_parts_underflow) simp_all
qed

lemma parts_bounds:
  assumes "0 < part_size"
  shows "(\<lceil>real_of_int object_size / real_of_int part_size\<rceil> - 1) * part_size < object_size"
    and "object_size \<le> \<lceil>real_of_int object_size / real_of_int part_size\<rceil> * part_size"
proof -
  define q where "q = (- object_size) div part_size"
  define r where "r = (- object_size) mod part_size"
  have r: "0 \<le> r" "r < part_size" using assms by (simp_all add: r_def)
  have eq: "- object_size = q * part_size + r" by (simp add: q_def r_def)
  have n: "\<lceil>real_of_int object_size / real_of_int part_size\<rceil> = - q"
    unfolding q_def by (rule ceiling_divide_eq_div)
  have "object_size = (- q) * part_size - r" using eq by (simp add: algebra_simps)
  then show "(\<lceil>real_of_int object_size / real_of_int part_size\<rceil> - 1) * part_size < object_size"
    and "object_size \<le> \<lceil>real_of_int object_size / real_of_int part_size\<rceil> * part_size"
    using r unfolding n by (simp_all add: algebra_simps)
qed

lemma full_parts_concat:
  assumes "0 < part_size" and "int m * part_size \<le> object_size"
  shows "concat (map (\<lambda>k. byte_range (part_range object_size part_size k)) [1..int m])
         = [0..int m * part_size - 1]"
  using assms(2)
proof (induction m)
  case 0
  then show ?case by simp
next
  case (Suc m)
  have le: "int m * part_size \<le> object_size"
    using Suc.prems assms(1) by (simp add: algebra_simps)
  have split: "[1..int (Suc m)] = [1..int m] @ [int m + 1]"
    using upto_rec2[of 1 "int m + 1"] by (simp add: add.commute)
  have rng: "byte_range (part_range object_size part_size (int m + 1))
             = [int m * part_size..(int m + 1) * part_size - 1]"
    using Suc.prems by (simp add: byte_range_def part_range_def algebra_simps)
  have join: "[0..int m * part_size - 1] @ [int m * part_size..(int m + 1) * part_size - 1]
              = [0..(int m + 1) * part_size - 1]"
    using upto_split1[of 0 "int m * part_size" "(int m + 1) * part_size - 1"] assms(1)
    by (simp add: algebra_simps)
  show ?case
    unfolding split using Suc.IH[OF le] rng join by (simp add: algebra_simps)
qed

lemma parts_partition:
  assumes "0 < part_size"
  shows "concat (map (\<lambda>k. byte_range (part_range object_size part_size k))
            [1..\<lceil>real_of_int object_size / real_of_int part_size\<rceil>]) = [0..object_size - 1]"
proof (cases "0 < object_size")
  case False
  define n where "n = \<lceil>real_of_int object_size / real_of_int part_size\<rceil>"
  have "n * part_size < part_size"
    using parts_bounds(1)[OF assms, of object_size] False by (simp add: algebra_simps n_def)
  then have "n < 1" using assms by simp
  then show ?thesis unfolding n_def[symmetric] using False by simp
next
  case True
  define n where "n = \<lceil>real_of_int object_size / real_of_int part_size\<rceil>"
  have b: "(n - 1) * part_size < object_size" "object_size \<le> n * part_size"
    using parts_bounds[OF assms] by (simp_all add: n_def)
  have n1: "1 \<le> n"
  proof (rule ccontr)
    assume "\<not> 1 \<le> n"
    then have "n \<le> 0" by simp
    then have "n * part_size \<le> 0" using assms by (simp add: mult_le_0_iff)
    then show False using b(2) True by simp
  qed
  obtain m where m: "n - 1 = int m" using n1 by (metis nonneg_int_cases diff_ge_0_iff_ge)
  have split: "[1..n] = [1..int m] @ [n]"
    using upto_rec2[of 1 n] n1 m by simp
  have full: "concat (map (\<lambda>k. byte_range (part_range object_size part_size k)) [1..int m])
         = [0..int m * part_size - 1]"
    using full_parts_concat[OF assms, of m object_size] b(1) m by simp
  have lastr: "byte_range (part_range object_size part_size n) = [int m * part_size..object_size - 1]"
    using b(2) m by (simp add: byte_range_def part_range_def)
  have join: "[0..int m * part_size - 1] @ [int m * part_size..object_size - 1] = [0..object_size - 1]"
    using upto_split1[of 0 "int m * part_size" "object_size - 1"] b(1) m assms by simp
  show ?thesis
    unfolding n_def[symmetric] split using full lastr join by simp
qed

lemma upload_call_explicit:
  "upload_call db dk uid src object_size part_size k =
     UploadPartCopy db dk uid k src ((k - 1) * part_size) (min (k * part_size) object_size - 1)"
  by (simp add: upload_call_def part_range_def min_def)

lemma copy_parts_Cons:
  "copy_parts s3 db dk uid src object_size part_size (k # ks) parts calls =
     (case api_upload_part_copy s3 calls (upload_call db dk uid src object_size part_size k) of
        Inl e \<Rightarrow> (Inl e, calls @ [upload_call db dk uid src object_size part_size k])
      | Inr etag \<Rightarrow>
          copy_parts s3 db dk uid src object_size part_size ks (parts @ [(k, etag)])
            (calls @ [upload_call db dk uid src object_size part_size k]))"
proof (cases "part_range object_size part_size k")
  case (Pair a b)
  then have u: "upload_call db dk uid src object_size part_size k = UploadPartCopy db dk uid k src a b"
    by (simp add: upload_call_def)
  show ?thesis unfolding u using Pair by (simp add: Let_def)
qed


lemma copy_parts_success:
  "copy_parts s3 db dk uid src object_size part_size ks parts calls = (Inr parts', calls')
   \<Longrightarrow> calls' = calls @ map (upload_call db dk uid src object_size part_size) ks
       \<and> map fst parts' = map fst parts @ ks"
proof (induction ks arbitrary: parts calls)
  case Nil
  then show ?case by simp
next
  case (Cons k ks)
  let ?mk = "upload_call db dk uid src object_size part_size"
  show ?case
  proof (cases "api_upload_part_copy s3 calls (?mk k)")
    case (Inl e)
    then show ?thesis using Cons.prems by (simp add: copy_parts_Cons del: copy_parts.simps)
  next
    case (Inr etag)
    then have "copy_parts s3 db dk uid src object_size part_size ks (parts @ [(k, etag)])
                 (calls @ [?mk k]) = (Inr parts', calls')"
      using Cons.prems by (simp add: copy_parts_Cons del: copy_parts.simps)
    from Cons.IH[OF this] show ?thesis by simp
  qed
qed



lemma abort_and_reraise_None:
  "abort_and_reraise s3 db dk None e calls = (Inl e, calls)"
  by (simp add: abort_and_reraise_def)

lemma abort_and_reraise_empty:
  "abort_and_reraise s3 db dk (Some []) e calls = (Inl e, calls)"
  by (simp add: abort_and_reraise_def)




lemma multipart_copy_body_too_large:
  "MAX_OBJECT_SIZE < object_size \<Longrightarrow>
   snd (multipart_copy_body s3 sb sk db dk object_size kms part_size calls) = calls"
  by (simp add: multipart_copy_body_def)

lemma multipart_copy_body_create_fails:
  assumes "object_size \<le> MAX_OBJECT_SIZE"
    and "api_create_multipart_upload s3 calls (CreateMultipartUpload db dk kms) = Inl e"
  shows "multipart_copy_body s3 sb sk db dk object_size kms part_size calls =
         (Inl e, calls @ [CreateMultipartUpload db dk kms])"
  using assms by (simp add: multipart_copy_body_def abort_and_reraise_None)

lemma copy_parts_all_succeed:
  assumes "\<forall>h c. \<exists>etag. api_upload_part_copy s3 h c = Inr etag"
  shows "\<exists>parts'. copy_parts s3 db dk uid src object_size part_size ks parts calls =
            (Inr parts', calls @ map (upload_call db dk uid src object_size part_size) ks)
         \<and> map fst parts' = map fst parts @ ks"
proof (induction ks arbitrary: parts calls)
  case Nil
  then show ?case by simp
next
  case (Cons k ks)
  let ?mk = "upload_call db dk uid src object_size part_size"
  obtain etag where etag: "api_upload_part_copy s3 calls (?mk k) = Inr etag"
    using assms by blast
  obtain parts' where p:
    "copy_parts s3 db dk uid src object_size part_size ks (parts @ [(k, etag)]) (calls @ [?mk k]) =
       (Inr parts', (calls @ [?mk k]) @ map ?mk ks)"
    "map fst parts' = map fst (parts @ [(k, etag)]) @ ks"
    using Cons.IH[of "parts @ [(k, etag)]" "calls @ [?mk k]"] by blast
  have "copy_parts s3 db dk uid src object_size part_size (k # ks) parts calls =
          (Inr parts', calls @ map ?mk (k # ks))"
    using etag p(1) by (simp add: copy_parts_Cons del: copy_parts.simps)
  then show ?case using p(2) by auto
qed

lemma multipart_copy_body_created:
  assumes "object_size \<le> MAX_OBJECT_SIZE"
    and "api_create_multipart_upload s3 calls (CreateMultipartUpload db dk kms) = Inr uid"
  shows "multipart_copy_body s3 sb sk db dk object_size kms part_size calls =
     (case num_parts object_size part_size of
        Inl e \<Rightarrow>
          abort_and_reraise s3 db dk (Some uid) e (calls @ [CreateMultipartUpload db dk kms])
      | Inr n \<Rightarrow>
        (case copy_parts s3 db dk uid (sb @ ''/'' @ sk) object_size part_size
                [1..n] [] (calls @ [CreateMultipartUpload db dk kms]) of
           (Inl e, calls2) \<Rightarrow> abort_and_reraise s3 db dk (Some uid) e calls2
         | (Inr parts, calls2) \<Rightarrow>
             (case api_complete_multipart_upload s3 calls2 (CompleteMultipartUpload db dk uid parts) of
                Inl e \<Rightarrow> abort_and_reraise s3 db dk (Some uid) e
                           (calls2 @ [CompleteMultipartUpload db dk uid parts])
              | Inr result \<Rightarrow> (Inr result, calls2 @ [CompleteMultipartUpload db dk uid parts]))))"
  using assms by (simp add: multipart_copy_body_def Let_def split: prod.splits sum.splits)

lemma abort_and_reraise_fails: "fst (abort_and_reraise s3 db dk upload_id e calls) = Inl e"
  by (simp add: abort_and_reraise_def split: option.splits sum.splits)

lemma multipart_copy_body_success:
  assumes "multipart_copy_body s3 sb sk db dk object_size kms part_size calls = (Inr result, calls')"
  shows "\<exists>uid parts n.
           api_create_multipart_upload s3 calls (CreateMultipartUpload db dk kms) = Inr uid
         \<and> num_parts object_size part_size = Inr n
         \<and> calls' = calls @ CreateMultipartUpload db dk kms
               # map (upload_call db dk uid (sb @ ''/'' @ sk) object_size part_size) [1..n]
               @ [CompleteMultipartUpload db dk uid parts]
         \<and> map fst parts = [1..n]"
proof -
  have size: "object_size \<le> MAX_OBJECT_SIZE"
    using assms by (auto simp: multipart_copy_body_def split: if_splits)
  let ?create = "CreateMultipartUpload db dk kms"
  obtain uid where uid: "api_create_multipart_upload s3 calls ?create = Inr uid"
    using assms size multipart_copy_body_create_fails[OF size, of s3 calls db dk kms]
    by (cases "api_create_multipart_upload s3 calls ?create") auto
  have body: "multipart_copy_body s3 sb sk db dk object_size kms part_size calls = (Inr result, calls')"
    by (rule assms)
  obtain n where n: "num_parts object_size part_size = Inr n"
  proof (cases "num_parts object_size part_size")
    case (Inl e)
    have "fst (multipart_copy_body s3 sb sk db dk object_size kms part_size calls) = Inl e"
      unfolding multipart_copy_body_created[OF size uid] Inl
      by (simp add: abort_and_reraise_fails)
    then show ?thesis using body by simp
  next
    case (Inr n)
    then show ?thesis by (rule that)
  qed
  let ?loop = "copy_parts s3 db dk uid (sb @ ''/'' @ sk) object_size part_size
                [1..n] [] (calls @ [?create])"
  obtain r calls2 where loop: "?loop = (r, calls2)" by (cases ?loop)
  obtain parts where parts: "r = Inr parts"
  proof (cases r)
    case (Inl e)
    have "fst (multipart_copy_body s3 sb sk db dk object_size kms part_size calls) = Inl e"
      unfolding multipart_copy_body_created[OF size uid] n
      using loop Inl by (simp add: abort_and_reraise_fails)
    then show ?thesis using body by simp
  next
    case (Inr parts)
    then show ?thesis by (rule that)
  qed
  have fin: "calls' = calls2 @ [CompleteMultipartUpload db dk uid parts]"
    using body loop parts unfolding multipart_copy_body_created[OF size uid] n
    by (auto simp: abort_and_reraise_def split: if_splits sum.splits)
  from copy_parts_success[OF loop[unfolded parts]]
  have "calls2 = (calls @ [?create]) @ map (upload_call db dk uid (sb @ ''/'' @ sk) object_size part_size)
                   [1..n]"
    and "map fst parts = [1..n]" by simp_all
  then show ?thesis using uid n fin by simp
qed

lemma multipart_copy_body_all_succeed:
  assumes size: "object_size \<le> MAX_OBJECT_SIZE"
    and uid: "api_create_multipart_upload s3 calls (CreateMultipartUpload db dk kms) = Inr uid"
    and n: "num_parts object_size part_size = Inr n"
    and uploads: "\<forall>h c. \<exists>etag. api_upload_part_copy s3 h c = Inr etag"
    and completes: "\<forall>h c. \<exists>result. api_complete_multipart_upload s3 h c = Inr result"
  shows "\<exists>result parts.
           multipart_copy_body s3 sb sk db dk object_size kms part_size calls =
             (Inr result,
              calls @ CreateMultipartUpload db dk kms
                # map (upload_call db dk uid (sb @ ''/'' @ sk) object_size part_size) [1..n]
                @ [CompleteMultipartUpload db dk uid parts])
         \<and> map fst parts = [1..n]"
proof -
  let ?create = "CreateMultipartUpload db dk kms"
  let ?mk = "upload_call db dk uid (sb @ ''/'' @ sk) object_size part_size"
  obtain parts where parts:
    "copy_parts s3 db dk uid (sb @ ''/'' @ sk) object_size part_size [1..n] [] (calls @ [?create]) =
       (Inr parts, (calls @ [?create]) @ map ?mk [1..n])"
    "map fst parts = [1..n]"
    using copy_parts_all_succeed[OF uploads, of db dk uid "sb @ ''/'' @ sk" object_size part_size
        "[1..n]" "[]" "calls @ [?create]"]
    by auto
  obtain result where result:
    "api_complete_multipart_upload s3 ((calls @ [?create]) @ map ?mk [1..n])
       (CompleteMultipartUpload db dk uid parts) = Inr result"
    using completes by blast
  have "multipart_copy_body s3 sb sk db dk object_size kms part_size calls =
          (Inr result, calls @ ?create # map ?mk [1..n] @ [CompleteMultipartUpload db dk uid parts])"
    unfolding multipart_copy_body_created[OF size uid] n using parts(1) result by simp
  then show ?thesis using parts(2) by blast
qed


text \<open>
  C2. For an object size from 0 to \<open>MAX_OBJECT_SIZE\<close> and a part size from 1 to \<open>2^1022\<close>,
  \<open>num_parts\<close> is the ceiling of \<open>object_size / part_size\<close> (the least \<open>n\<close> with
  \<open>object_size \<le> n * part_size\<close>); part \<open>k\<close> of \<open>1..num_parts\<close> covers the bytes
  \<open>(k - 1) * part_size\<close> to \<open>min(k * part_size, object_size) - 1\<close>; the ranges of the parts,
  one after the other, are exactly the bytes \<open>0..object_size - 1\<close>, each once; the last part
  ends at \<open>object_size - 1\<close>. The copy issues these part copies: when the creation returns
  an upload identifier and the part copies and the completion succeed, the copy returns
  after exactly the creation, the copy of part \<open>1\<close> to part \<open>num_parts\<close> in this order with
  these ranges, and the completion listing these part numbers; and a copy that returns, under
  any behaviour of the client, has made exactly these calls.
\<close>

theorem multipart_copy_part_ranges:
  assumes "0 \<le> object_size" and "object_size \<le> MAX_OBJECT_SIZE"
    and "0 < part_size" and "part_size \<le> 2 ^ 1022"
  shows "\<exists>n. num_parts object_size part_size = Inr n
       \<and> n = \<lceil>real_of_int object_size / real_of_int part_size\<rceil>
       \<and> (n - 1) * part_size < object_size
       \<and> object_size \<le> n * part_size
       \<and> (\<forall>k \<in> set [1..n].
             part_range object_size part_size k
               = ((k - 1) * part_size, min (k * part_size) object_size - 1))
       \<and> concat (map (\<lambda>k. byte_range (part_range object_size part_size k)) [1..n])
           = [0..object_size - 1]
       \<and> (0 < object_size \<longrightarrow>
             1 \<le> n \<and> snd (part_range object_size part_size n) = object_size - 1)
       \<and> (\<forall>uid.
             api_create_multipart_upload s3 calls (CreateMultipartUpload db dk kms) = Inr uid
           \<and> (\<forall>h c. \<exists>etag. api_upload_part_copy s3 h c = Inr etag)
           \<and> (\<forall>h c. \<exists>result. api_complete_multipart_upload s3 h c = Inr result)
           \<longrightarrow> (\<exists>result parts.
                  multipart_copy_body s3 sb sk db dk object_size kms part_size calls =
                    (Inr result,
                     calls @ CreateMultipartUpload db dk kms
                       # map (\<lambda>k. UploadPartCopy db dk uid k (sb @ ''/'' @ sk)
                                    ((k - 1) * part_size) (min (k * part_size) object_size - 1))
                           [1..n]
                       @ [CompleteMultipartUpload db dk uid parts])
                \<and> map fst parts = [1..n]))
       \<and> (\<forall>result calls'.
             multipart_copy_body s3 sb sk db dk object_size kms part_size calls = (Inr result, calls')
             \<longrightarrow> (\<exists>uid parts.
                   api_create_multipart_upload s3 calls (CreateMultipartUpload db dk kms) = Inr uid
                 \<and> calls' = calls @ CreateMultipartUpload db dk kms
                     # map (\<lambda>k. UploadPartCopy db dk uid k (sb @ ''/'' @ sk)
                                  ((k - 1) * part_size) (min (k * part_size) object_size - 1))
                         [1..n]
                     @ [CompleteMultipartUpload db dk uid parts]
                 \<and> map fst parts = [1..n]))"
proof -
  define n where "n = \<lceil>real_of_int object_size / real_of_int part_size\<rceil>"
  have np: "num_parts object_size part_size = Inr n"
    unfolding n_def by (rule num_parts_exact[OF assms])
  have b: "(n - 1) * part_size < object_size" "object_size \<le> n * part_size"
    using parts_bounds[OF assms(3)] by (simp_all add: n_def)
  have r: "\<forall>k \<in> set [1..n]. part_range object_size part_size k
               = ((k - 1) * part_size, min (k * part_size) object_size - 1)"
    by (simp add: part_range_def min_def)
  have p: "concat (map (\<lambda>k. byte_range (part_range object_size part_size k)) [1..n])
             = [0..object_size - 1]"
    unfolding n_def by (rule parts_partition[OF assms(3)])
  have l: "0 < object_size \<longrightarrow> 1 \<le> n \<and> snd (part_range object_size part_size n) = object_size - 1"
  proof
    assume pos: "0 < object_size"
    have "1 \<le> n"
    proof (rule ccontr)
      assume "\<not> 1 \<le> n"
      then have "n \<le> 0" by simp
      then have "n * part_size \<le> 0" using assms(3) by (simp add: mult_le_0_iff)
      then show False using b(2) pos by simp
    qed
    then show "1 \<le> n \<and> snd (part_range object_size part_size n) = object_size - 1"
      using b(2) by (simp add: part_range_def)
  qed
  let ?create = "CreateMultipartUpload db dk kms"
  let ?part = "\<lambda>uid k. UploadPartCopy db dk uid k (sb @ ''/'' @ sk)
                          ((k - 1) * part_size) (min (k * part_size) object_size - 1)"
  have mk: "upload_call db dk uid (sb @ ''/'' @ sk) object_size part_size = ?part uid" for uid
    by (rule ext) (rule upload_call_explicit)
  have s: "\<forall>uid.
             api_create_multipart_upload s3 calls ?create = Inr uid
           \<and> (\<forall>h c. \<exists>etag. api_upload_part_copy s3 h c = Inr etag)
           \<and> (\<forall>h c. \<exists>result. api_complete_multipart_upload s3 h c = Inr result)
           \<longrightarrow> (\<exists>result parts.
                  multipart_copy_body s3 sb sk db dk object_size kms part_size calls =
                    (Inr result,
                     calls @ ?create # map (?part uid) [1..n]
                       @ [CompleteMultipartUpload db dk uid parts])
                \<and> map fst parts = [1..n])"
  proof (intro allI impI)
    fix uid
    assume h: "api_create_multipart_upload s3 calls ?create = Inr uid
           \<and> (\<forall>h c. \<exists>etag. api_upload_part_copy s3 h c = Inr etag)
           \<and> (\<forall>h c. \<exists>result. api_complete_multipart_upload s3 h c = Inr result)"
    then have h1: "api_create_multipart_upload s3 calls ?create = Inr uid"
      and h2: "\<forall>h c. \<exists>etag. api_upload_part_copy s3 h c = Inr etag"
      and h3: "\<forall>h c. \<exists>result. api_complete_multipart_upload s3 h c = Inr result"
      by simp_all
    from multipart_copy_body_all_succeed[OF assms(2) h1 np h2 h3, of sb sk]
    show "\<exists>result parts.
            multipart_copy_body s3 sb sk db dk object_size kms part_size calls =
              (Inr result,
               calls @ ?create # map (?part uid) [1..n] @ [CompleteMultipartUpload db dk uid parts])
          \<and> map fst parts = [1..n]"
      unfolding mk .
  qed
  have t: "\<forall>result calls'.
             multipart_copy_body s3 sb sk db dk object_size kms part_size calls = (Inr result, calls')
             \<longrightarrow> (\<exists>uid parts.
                   api_create_multipart_upload s3 calls ?create = Inr uid
                 \<and> calls' = calls @ ?create # map (?part uid) [1..n]
                     @ [CompleteMultipartUpload db dk uid parts]
                 \<and> map fst parts = [1..n])"
  proof (intro allI impI)
    fix result calls'
    assume "multipart_copy_body s3 sb sk db dk object_size kms part_size calls = (Inr result, calls')"
    from multipart_copy_body_success[OF this] obtain uid parts n' where o:
      "api_create_multipart_upload s3 calls ?create = Inr uid"
      "num_parts object_size part_size = Inr n'"
      "calls' = calls @ ?create
         # map (upload_call db dk uid (sb @ ''/'' @ sk) object_size part_size) [1..n']
         @ [CompleteMultipartUpload db dk uid parts]"
      "map fst parts = [1..n']"
      by blast
    have "n' = n" using o(2) np by simp
    then show "\<exists>uid parts.
                   api_create_multipart_upload s3 calls ?create = Inr uid
                 \<and> calls' = calls @ ?create # map (?part uid) [1..n]
                     @ [CompleteMultipartUpload db dk uid parts]
                 \<and> map fst parts = [1..n]"
      using o(1,3,4) unfolding mk by blast
  qed
  show ?thesis
    using np b r p l s t by (intro exI[of _ n] conjI) (simp_all add: n_def)
qed

theorem multipart_copy_part_ranges_witness:
  "\<exists>parts.
     multipart_copy_body example_s3 ''src'' ''k'' ''dst'' ''k'' 10 '''' 4 [] =
       (Inr ''done'',
        [CreateMultipartUpload ''dst'' ''k'' '''',
         UploadPartCopy ''dst'' ''k'' ''upload-1'' 1 ''src/k'' 0 3,
         UploadPartCopy ''dst'' ''k'' ''upload-1'' 2 ''src/k'' 4 7,
         UploadPartCopy ''dst'' ''k'' ''upload-1'' 3 ''src/k'' 8 9,
         CompleteMultipartUpload ''dst'' ''k'' ''upload-1'' parts])
   \<and> map fst parts = [1, 2, 3]
   \<and> num_parts 10 4 = Inr 3
   \<and> concat (map (\<lambda>k. byte_range (part_range 10 4 k)) [1..3]) = [0..9]"
proof -
  have h1: "(0::int) \<le> 10" by simp
  have h2: "(10::int) \<le> MAX_OBJECT_SIZE" by (simp add: MAX_OBJECT_SIZE_def)
  have h3: "(0::int) < 4" by simp
  have h4: "(4::int) \<le> 2 ^ 1022" by simp
  have created: "api_create_multipart_upload example_s3 []
                   (CreateMultipartUpload ''dst'' ''k'' '''') = Inr ''upload-1''"
    by (simp add: example_s3_def)
  have uploads: "\<forall>h c. \<exists>etag. api_upload_part_copy example_s3 h c = Inr etag"
    by (simp add: example_s3_def)
  have completes: "\<forall>h c. \<exists>result. api_complete_multipart_upload example_s3 h c = Inr result"
    by (simp add: example_s3_def)
  from multipart_copy_part_ranges[OF h1 h2 h3 h4, where ?s3.0 = example_s3 and calls = "[]"
      and db = "''dst''" and dk = "''k''" and kms = "''''" and sb = "''src''" and sk = "''k''"]
  obtain n where n:
    "num_parts 10 4 = Inr n"
    "(n - 1) * 4 < 10" "10 \<le> n * 4"
    "concat (map (\<lambda>k. byte_range (part_range 10 4 k)) [1..n]) = [0..10 - 1]"
    "\<forall>uid.
        api_create_multipart_upload example_s3 [] (CreateMultipartUpload ''dst'' ''k'' '''') = Inr uid
      \<and> (\<forall>h c. \<exists>etag. api_upload_part_copy example_s3 h c = Inr etag)
      \<and> (\<forall>h c. \<exists>result. api_complete_multipart_upload example_s3 h c = Inr result)
      \<longrightarrow> (\<exists>result parts.
             multipart_copy_body example_s3 ''src'' ''k'' ''dst'' ''k'' 10 '''' 4 [] =
               (Inr result,
                [] @ CreateMultipartUpload ''dst'' ''k'' ''''
                  # map (\<lambda>k. UploadPartCopy ''dst'' ''k'' uid k (''src'' @ ''/'' @ ''k'')
                               ((k - 1) * 4) (min (k * 4) 10 - 1))
                      [1..n]
                  @ [CompleteMultipartUpload ''dst'' ''k'' uid parts])
           \<and> map fst parts = [1..n])"
    by blast
  have n3: "n = 3" using n(2,3) by simp
  from n(5) created uploads completes obtain result parts where run:
    "multipart_copy_body example_s3 ''src'' ''k'' ''dst'' ''k'' 10 '''' 4 [] =
       (Inr result,
        [] @ CreateMultipartUpload ''dst'' ''k'' ''''
          # map (\<lambda>k. UploadPartCopy ''dst'' ''k'' ''upload-1'' k (''src'' @ ''/'' @ ''k'')
                       ((k - 1) * 4) (min (k * 4) 10 - 1))
              [1..n]
          @ [CompleteMultipartUpload ''dst'' ''k'' ''upload-1'' parts])"
    "map fst parts = [1..n]"
    by blast
  have l3: "[1..3::int] = [1, 2, 3]" by (simp add: upto_rec1)
  have "fst (multipart_copy_body example_s3 ''src'' ''k'' ''dst'' ''k'' 10 '''' 4 []) = Inr ''done''"
    by (simp add: multipart_copy_body_def MAX_OBJECT_SIZE_def num_parts_10_4 upto_rec1
          part_range_def example_s3_def Let_def)
  then have result: "result = ''done''" using run(1) by simp
  show ?thesis
    using run n(1,4) unfolding n3 l3 result by (intro exI[of _ parts]) simp
qed

text \<open>
  The claim as the specification states it fails for a larger part size: with an object
  of 5 GiB and a part size of \<open>2^1120\<close> the
  float quotient is \<open>0.0\<close>, so that \<open>num_parts\<close> is 0 where the ceiling of the quotient is
  1: the copy creates the upload and completes it with no part, and no byte of the object
  is copied.
\<close>

theorem multipart_copy_no_parts_counterexample:
  "num_parts (5 * 1024 * 1024 * 1024) (2 ^ 1120) = Inr 0
   \<and> \<lceil>real_of_int (5 * 1024 * 1024 * 1024) / real_of_int (2 ^ 1120)\<rceil> = 1
   \<and> multipart_copy_body example_s3 ''src'' ''k'' ''dst'' ''k'' (5 * 1024 * 1024 * 1024) ''''
       (2 ^ 1120) [] =
       (Inr ''done'',
        [CreateMultipartUpload ''dst'' ''k'' '''',
         CompleteMultipartUpload ''dst'' ''k'' ''upload-1'' []])"
proof -
  have size: "(5 * 1024 * 1024 * 1024 :: int) \<le> MAX_OBJECT_SIZE"
    by (simp add: MAX_OBJECT_SIZE_def)
  have created: "api_create_multipart_upload example_s3 []
                   (CreateMultipartUpload ''dst'' ''k'' '''') = Inr ''upload-1''"
    by (simp add: example_s3_def)
  have run: "multipart_copy_body example_s3 ''src'' ''k'' ''dst'' ''k'' (5 * 1024 * 1024 * 1024) ''''
       (2 ^ 1120) [] =
       (Inr ''done'',
        [CreateMultipartUpload ''dst'' ''k'' '''',
         CompleteMultipartUpload ''dst'' ''k'' ''upload-1'' []])"
    unfolding multipart_copy_body_created[OF size created] num_parts_underflow_example
    by (simp add: example_s3_def)
  have "(0::real) < 5 * 1024 * 1024 * 1024 / 2 ^ 1120" by simp
  moreover have "(5 * 1024 * 1024 * 1024 :: real) / 2 ^ 1120 \<le> 1"
  proof -
    have "(5 * 1024 * 1024 * 1024 :: real) \<le> 2 ^ 33" by simp
    also have "(2::real) ^ 33 \<le> 2 ^ 1120" by (rule power_increasing) simp_all
    finally show ?thesis by simp
  qed
  ultimately have "\<lceil>(5 * 1024 * 1024 * 1024 :: real) / 2 ^ 1120\<rceil> = 1"
    by (simp add: ceiling_eq_iff)
  then have c: "\<lceil>real_of_int (5 * 1024 * 1024 * 1024) / real_of_int (2 ^ 1120)\<rceil> = 1"
    by simp
  show ?thesis using num_parts_underflow_example c run by (intro conjI)
qed



section \<open>Error classification\<close>

text \<open>
  C9. The class of the exception a classifier returns is a function of the error code
  alone. For S3, the codes \<open>AccessDenied\<close> and \<open>403\<close> give \<open>AccessDeniedError\<close>, a
  \<open>NonRetryableError\<close> that the retrier does not retry; every other code gives
  \<open>RetryableError\<close>, among them \<open>SlowDown\<close>, \<open>503\<close>, \<open>RequestTimeout\<close> and
  \<open>InternalError\<close>. For STS, the codes \<open>AccessDenied\<close> and \<open>AccessDeniedException\<close> give
  \<open>AccessDeniedError\<close>, every other code \<open>RetryableError\<close>.
\<close>

theorem error_classification:
  "class_of (classify_s3_error code text operation)
     = (if code = ''AccessDenied'' \<or> code = ''403'' then AccessDeniedError else RetryableError)
   \<and> class_of (classify_sts_error role_arn code text)
     = (if code = ''AccessDenied'' \<or> code = ''AccessDeniedException''
        then AccessDeniedError else RetryableError)
   \<and> class_of (classify_s3_error ''SlowDown'' text operation) = RetryableError
   \<and> class_of (classify_s3_error ''503'' text operation) = RetryableError
   \<and> class_of (classify_s3_error ''RequestTimeout'' text operation) = RetryableError
   \<and> class_of (classify_s3_error ''InternalError'' text operation) = RetryableError
   \<and> isinstance (Raised RetryableError m d) [RetryableError]
   \<and> isinstance (Raised AccessDeniedError m d) [NonRetryableError]
   \<and> \<not> isinstance (Raised AccessDeniedError m d) [RetryableError]"
  by (simp add: classify_s3_error_def classify_sts_error_def isinstance_def Let_def)

theorem error_classification_witness:
  "class_of (classify_s3_error ''403'' ''Forbidden'' ''head_object'') = AccessDeniedError
   \<and> class_of (classify_s3_error ''NoSuchKey'' ''Not Found'' ''head_object'') = RetryableError
   \<and> class_of (classify_sts_error ''role'' ''AccessDeniedException'' ''denied'') = AccessDeniedError
   \<and> class_of (classify_sts_error ''role'' ''403'' ''denied'') = RetryableError"
  using error_classification[of "''403''" "''Forbidden''" "''head_object''" "''role''"]
    error_classification[of "''NoSuchKey''" "''Not Found''" "''head_object''" "''role''"]
    error_classification[of "''AccessDeniedException''" "''denied''" "''head_object''" "''role''"]
    error_classification[of "''403''" "''denied''" "''head_object''" "''role''"]
  by simp

section \<open>Destination keys\<close>

lemma startswith_append: "startswith (p @ s) p"
  by (simp add: startswith_def)

lemma startswith_iff: "startswith s p \<longleftrightarrow> (\<exists>r. s = p @ r)"
  unfolding startswith_def by (metis append_eq_conv_conj append_take_drop_id)

text \<open>
  C1, as the code has it. A source key that starts with the source prefix gets the
  destination prefix followed by the rest of the key. A source key that does not start
  with the source prefix gets the destination prefix followed by the whole key: the key
  is kept, and the destination prefix is still put in front of it, so the destination
  key is the source key itself only when the destination prefix is empty.
\<close>

theorem dest_key_derivation:
  "(startswith source_key source_prefix \<longrightarrow>
      dest_key_of source_prefix dest_prefix source_key
        = dest_prefix @ drop (length source_prefix) source_key)
   \<and> (\<not> startswith source_key source_prefix \<longrightarrow>
      dest_key_of source_prefix dest_prefix source_key = dest_prefix @ source_key)
   \<and> (\<not> startswith source_key source_prefix \<and> dest_prefix = [] \<longrightarrow>
      dest_key_of source_prefix dest_prefix source_key = source_key)"
  by (auto simp: dest_key_of_def relative_key_of_def Let_def)

theorem dest_key_derivation_witness:
  "startswith ''data/a/b.txt'' ''data/''
   \<and> dest_key_of ''data/'' ''out/'' ''data/a/b.txt'' = ''out/a/b.txt''
   \<and> \<not> startswith ''other/x.txt'' ''data/''
   \<and> dest_key_of ''data/'' ''out/'' ''other/x.txt'' = ''out/other/x.txt''"
proof -
  have a: "startswith ''data/a/b.txt'' ''data/''" by (simp add: startswith_def)
  have b: "\<not> startswith ''other/x.txt'' ''data/''" by (simp add: startswith_def)
  show ?thesis
    using a b dest_key_derivation[of "''data/a/b.txt''" "''data/''" "''out/''"]
      dest_key_derivation[of "''other/x.txt''" "''data/''" "''out/''"]
    by simp
qed

text \<open>
  The claim as the specification states it fails: the key \<open>other/x.txt\<close> does not start
  with the source prefix \<open>data/\<close>, and its destination key under the destination prefix
  \<open>out/\<close> is \<open>out/other/x.txt\<close>, not the key unchanged.
\<close>

theorem dest_key_unchanged_counterexample:
  "\<not> startswith ''other/x.txt'' ''data/''
   \<and> dest_key_of ''data/'' ''out/'' ''other/x.txt'' \<noteq> ''other/x.txt''"
  by (simp add: startswith_def dest_key_of_def relative_key_of_def)

section \<open>Credential acquisition\<close>

lemma retry_first_success:
  fixes func :: "'w \<Rightarrow> (exn + 'a) \<times> 'w"
  assumes "1 \<le> max_attempts P" and "func w = (Inr v, w')"
  shows "exponential_backoff_with_jitter P rnd func w =
           (Inr v, \<lparr>world = w', invocations = 1, sleeps = []\<rparr>)"
proof -
  have "[0..<nat (max_attempts P)] = 0 # [1..<nat (max_attempts P)]"
    using assms(1) by (simp add: upt_rec)
  then show ?thesis
    using assms(2) by (simp add: exponential_backoff_with_jitter_def)
qed

lemma is_cached_credential_valid_hit:
  "fst (is_cached_credential_valid time_time role_arn w) = cache_hit time_time role_arn w"
  by (simp add: is_cached_credential_valid_def cache_hit_def CREDENTIAL_BUFFER_SECONDS_def
        split: option.splits)

lemma assume_role_body_hit:
  assumes "credential_cache w role_arn = Some entry"
    and "time_time (clock_reads w) < expiry entry - 300"
  shows "assume_role_body time_time sts role_arn session_name external_id duration_seconds w =
           (Inr (cached_credentials entry), w\<lparr>clock_reads := Suc (clock_reads w)\<rparr>)"
  using assms
  by (simp add: assume_role_body_def is_cached_credential_valid_def CREDENTIAL_BUFFER_SECONDS_def)

lemma assume_role_body_miss_calls:
  assumes "\<not> cache_hit time_time role_arn w"
  shows "sts_calls (snd (assume_role_body time_time sts role_arn session_name external_id
                            duration_seconds w))
         = sts_calls w @ [AssumeRole role_arn session_name duration_seconds
                            (if external_id \<noteq> [] then Some external_id else None)]"
  using assms
  by (auto simp: assume_role_body_def is_cached_credential_valid_def cache_hit_def
        CREDENTIAL_BUFFER_SECONDS_def Let_def split: option.splits sum.splits exn.splits)

lemma assume_role_body_miss_success:
  assumes "\<not> cache_hit time_time role_arn w"
    and "sts (sts_calls w) (AssumeRole role_arn session_name duration_seconds
                            (if external_id \<noteq> [] then Some external_id else None)) = Inr raw"
  shows "fst (assume_role_body time_time sts role_arn session_name external_id duration_seconds w)
           = Inr \<lparr>aws_access_key_id = AccessKeyId raw, aws_secret_access_key = SecretAccessKey raw,
                  aws_session_token = SessionToken raw\<rparr>"
    and "credential_cache (snd (assume_role_body time_time sts role_arn session_name external_id
                                  duration_seconds w))
           = (credential_cache w)(role_arn \<mapsto>
               \<lparr>cached_credentials =
                  \<lparr>aws_access_key_id = AccessKeyId raw, aws_secret_access_key = SecretAccessKey raw,
                   aws_session_token = SessionToken raw\<rparr>,
                expiry = Expiration raw\<rparr>)"
  using assms
  by (auto simp: assume_role_body_def is_cached_credential_valid_def cache_hit_def
        CREDENTIAL_BUFFER_SECONDS_def Let_def split: option.splits)

lemma two_acquisitions:
  assumes miss: "\<not> cache_hit time_time role_arn w"
    and ok: "sts (sts_calls w) (AssumeRole role_arn session_name duration_seconds
                            (if external_id \<noteq> [] then Some external_id else None)) = Inr raw"
    and w1: "w1 = snd (assume_role_body time_time sts role_arn session_name external_id
                         duration_seconds w)"
  shows "time_time (clock_reads w1) < Expiration raw - 300 \<Longrightarrow>
           sts_calls (snd (assume_role_body time_time sts role_arn session_name external_id
                             duration_seconds w1))
           = sts_calls w @ [AssumeRole role_arn session_name duration_seconds
                              (if external_id \<noteq> [] then Some external_id else None)]"
    and "\<not> time_time (clock_reads w1) < Expiration raw - 300 \<Longrightarrow>
           sts_calls (snd (assume_role_body time_time sts role_arn session_name external_id
                             duration_seconds w1))
           = sts_calls w @ [AssumeRole role_arn session_name duration_seconds
                              (if external_id \<noteq> [] then Some external_id else None),
                            AssumeRole role_arn session_name duration_seconds
                              (if external_id \<noteq> [] then Some external_id else None)]"
proof -
  let ?call = "AssumeRole role_arn session_name duration_seconds
                 (if external_id \<noteq> [] then Some external_id else None)"
  let ?entry = "\<lparr>cached_credentials =
                  \<lparr>aws_access_key_id = AccessKeyId raw, aws_secret_access_key = SecretAccessKey raw,
                   aws_session_token = SessionToken raw\<rparr>,
                expiry = Expiration raw\<rparr>"
  have cache1: "credential_cache w1 role_arn = Some ?entry"
    unfolding w1 using assume_role_body_miss_success(2)[where sts = sts, OF miss ok] by simp
  have calls1: "sts_calls w1 = sts_calls w @ [?call]"
    unfolding w1 by (rule assume_role_body_miss_calls[OF miss])
  {
    assume fresh: "time_time (clock_reads w1) < Expiration raw - 300"
    have "assume_role_body time_time sts role_arn session_name external_id duration_seconds w1
            = (Inr (cached_credentials ?entry), w1\<lparr>clock_reads := Suc (clock_reads w1)\<rparr>)"
      by (rule assume_role_body_hit[OF cache1]) (simp add: fresh)
    then show "sts_calls (snd (assume_role_body time_time sts role_arn session_name external_id
                             duration_seconds w1)) = sts_calls w @ [?call]"
      by (simp add: calls1)
  }
  {
    assume stale: "\<not> time_time (clock_reads w1) < Expiration raw - 300"
    have "\<not> cache_hit time_time role_arn w1"
      using stale by (simp add: cache_hit_def cache1)
    from assume_role_body_miss_calls[OF this]
    show "sts_calls (snd (assume_role_body time_time sts role_arn session_name external_id
                             duration_seconds w1)) = sts_calls w @ [?call, ?call]"
      by (simp add: calls1)
  }
qed

text \<open>
  C8. When the cache holds an entry for the role and the time read is before the
  entry's expiry minus 300 seconds, \<open>assume_role\<close> returns the cached credentials and
  makes no remote call. Otherwise it makes one remote call; when that call succeeds, it
  returns the credentials of the response and stores them under the role with the
  response's expiry. So after a successful acquisition a second one for the same role
  adds no remote call while the time is before that expiry minus 300 seconds, and adds a
  second remote call once it is not. An acquisition whose body returns credentials
  returns them through the decorator after one invocation and no sleep.
\<close>

theorem credential_acquisition:
  "(\<forall>entry. credential_cache w role_arn = Some entry
            \<and> time_time (clock_reads w) < expiry entry - 300
       \<longrightarrow> assume_role_body time_time sts role_arn session_name external_id duration_seconds w
             = (Inr (cached_credentials entry), w\<lparr>clock_reads := Suc (clock_reads w)\<rparr>))
   \<and> (\<not> cache_hit time_time role_arn w
       \<longrightarrow> sts_calls (snd (assume_role_body time_time sts role_arn session_name external_id
                                duration_seconds w))
             = sts_calls w @ [AssumeRole role_arn session_name duration_seconds
                                (if external_id \<noteq> [] then Some external_id else None)])
   \<and> (\<forall>raw. \<not> cache_hit time_time role_arn w
          \<and> sts (sts_calls w) (AssumeRole role_arn session_name duration_seconds
                                 (if external_id \<noteq> [] then Some external_id else None)) = Inr raw
       \<longrightarrow> fst (assume_role_body time_time sts role_arn session_name external_id duration_seconds w)
             = Inr \<lparr>aws_access_key_id = AccessKeyId raw, aws_secret_access_key = SecretAccessKey raw,
                    aws_session_token = SessionToken raw\<rparr>
         \<and> credential_cache (snd (assume_role_body time_time sts role_arn session_name external_id
                                      duration_seconds w))
             = (credential_cache w)(role_arn \<mapsto>
                 \<lparr>cached_credentials =
                    \<lparr>aws_access_key_id = AccessKeyId raw, aws_secret_access_key = SecretAccessKey raw,
                     aws_session_token = SessionToken raw\<rparr>,
                  expiry = Expiration raw\<rparr>)
         \<and> sts_calls (snd (assume_role_body time_time sts role_arn session_name external_id
            duration_seconds
            (snd (assume_role_body time_time sts role_arn session_name external_id
                    duration_seconds w))))
             = sts_calls w @
               (if time_time (clock_reads (snd (assume_role_body time_time sts role_arn session_name
                                                  external_id duration_seconds w)))
                   < Expiration raw - 300
                then [AssumeRole role_arn session_name duration_seconds
                        (if external_id \<noteq> [] then Some external_id else None)]
                else [AssumeRole role_arn session_name duration_seconds
                        (if external_id \<noteq> [] then Some external_id else None),
                      AssumeRole role_arn session_name duration_seconds
                        (if external_id \<noteq> [] then Some external_id else None)]))
   \<and> (\<forall>c. fst (assume_role_body time_time sts role_arn session_name external_id
                   duration_seconds w) = Inr c
       \<longrightarrow> assume_role rnd time_time sts role_arn session_name external_id duration_seconds w
             = (Inr c,
                \<lparr>world = snd (assume_role_body time_time sts role_arn session_name external_id
                                 duration_seconds w),
                 invocations = 1, sleeps = []\<rparr>))"
proof (intro conjI allI impI)
  fix entry
  assume "credential_cache w role_arn = Some entry
            \<and> time_time (clock_reads w) < expiry entry - 300"
  then show "assume_role_body time_time sts role_arn session_name external_id duration_seconds w
             = (Inr (cached_credentials entry), w\<lparr>clock_reads := Suc (clock_reads w)\<rparr>)"
    using assume_role_body_hit by blast
next
  assume "\<not> cache_hit time_time role_arn w"
  then show "sts_calls (snd (assume_role_body time_time sts role_arn session_name external_id
                                duration_seconds w))
             = sts_calls w @ [AssumeRole role_arn session_name duration_seconds
                                (if external_id \<noteq> [] then Some external_id else None)]"
    by (rule assume_role_body_miss_calls)
next
  fix raw
  assume a: "\<not> cache_hit time_time role_arn w
          \<and> sts (sts_calls w) (AssumeRole role_arn session_name duration_seconds
                                 (if external_id \<noteq> [] then Some external_id else None)) = Inr raw"
  then have miss: "\<not> cache_hit time_time role_arn w"
    and ok: "sts (sts_calls w) (AssumeRole role_arn session_name duration_seconds
                                 (if external_id \<noteq> [] then Some external_id else None)) = Inr raw"
    by simp_all
  show "fst (assume_role_body time_time sts role_arn session_name external_id duration_seconds w)
             = Inr \<lparr>aws_access_key_id = AccessKeyId raw, aws_secret_access_key = SecretAccessKey raw,
                    aws_session_token = SessionToken raw\<rparr>"
    by (rule assume_role_body_miss_success(1)[where sts = sts, OF miss ok])
  show "credential_cache (snd (assume_role_body time_time sts role_arn session_name external_id
                                      duration_seconds w))
             = (credential_cache w)(role_arn \<mapsto>
                 \<lparr>cached_credentials =
                    \<lparr>aws_access_key_id = AccessKeyId raw, aws_secret_access_key = SecretAccessKey raw,
                     aws_session_token = SessionToken raw\<rparr>,
                  expiry = Expiration raw\<rparr>)"
    by (rule assume_role_body_miss_success(2)[where sts = sts, OF miss ok])
  show "sts_calls (snd (assume_role_body time_time sts role_arn session_name external_id
            duration_seconds
            (snd (assume_role_body time_time sts role_arn session_name external_id
                    duration_seconds w))))
             = sts_calls w @
               (if time_time (clock_reads (snd (assume_role_body time_time sts role_arn session_name
                                                  external_id duration_seconds w)))
                   < Expiration raw - 300
                then [AssumeRole role_arn session_name duration_seconds
                        (if external_id \<noteq> [] then Some external_id else None)]
                else [AssumeRole role_arn session_name duration_seconds
                        (if external_id \<noteq> [] then Some external_id else None),
                      AssumeRole role_arn session_name duration_seconds
                        (if external_id \<noteq> [] then Some external_id else None)])"
    using two_acquisitions[where sts = sts, OF miss ok refl] by (simp split: if_splits)
next
  fix c
  assume "fst (assume_role_body time_time sts role_arn session_name external_id
                   duration_seconds w) = Inr c"
  then have "assume_role_body time_time sts role_arn session_name external_id duration_seconds w
      = (Inr c, snd (assume_role_body time_time sts role_arn session_name external_id
                       duration_seconds w))"
    by (metis prod.collapse)
  then show "assume_role rnd time_time sts role_arn session_name external_id duration_seconds w
             = (Inr c,
                \<lparr>world = snd (assume_role_body time_time sts role_arn session_name external_id
                                 duration_seconds w),
                 invocations = 1, sleeps = []\<rparr>)"
    unfolding assume_role_def
    by (intro retry_first_success) (simp_all add: sts_retry_params_def)
qed

theorem credential_acquisition_witness:
  "sts_calls (snd (assume_role_body (\<lambda>k. 1000)
       (\<lambda>h c. Inr \<lparr>AccessKeyId = ''AKIA'', SecretAccessKey = ''secret'', SessionToken = ''token'',
                      Expiration = 4600\<rparr>)
       ''role'' ''session'' '''' 3600
       (snd (assume_role_body (\<lambda>k. 1000)
          (\<lambda>h c. Inr \<lparr>AccessKeyId = ''AKIA'', SecretAccessKey = ''secret'', SessionToken = ''token'',
                         Expiration = 4600\<rparr>)
          ''role'' ''session'' '''' 3600
          \<lparr>credential_cache = Map.empty, sts_calls = [], clock_reads = 0\<rparr>))))
     = [AssumeRole ''role'' ''session'' 3600 None]
   \<and> sts_calls (snd (assume_role_body (\<lambda>k. 5000)
       (\<lambda>h c. Inr \<lparr>AccessKeyId = ''AKIA'', SecretAccessKey = ''secret'', SessionToken = ''token'',
                      Expiration = 4600\<rparr>)
       ''role'' ''session'' '''' 3600
       (snd (assume_role_body (\<lambda>k. 5000)
          (\<lambda>h c. Inr \<lparr>AccessKeyId = ''AKIA'', SecretAccessKey = ''secret'', SessionToken = ''token'',
                         Expiration = 4600\<rparr>)
          ''role'' ''session'' '''' 3600
          \<lparr>credential_cache = Map.empty, sts_calls = [], clock_reads = 0\<rparr>))))
     = [AssumeRole ''role'' ''session'' 3600 None, AssumeRole ''role'' ''session'' 3600 None]"
proof -
  let ?sts = "\<lambda>(h::sts_call list) (c::sts_call).
      Inr \<lparr>AccessKeyId = ''AKIA'', SecretAccessKey = ''secret'', SessionToken = ''token'',
            Expiration = 4600\<rparr> :: exn + sts_response"
  let ?w = "\<lparr>credential_cache = Map.empty, sts_calls = [], clock_reads = 0\<rparr>"
  have miss: "\<not> cache_hit t ''role'' ?w" for t
    by (simp add: cache_hit_def)
  have ok: "?sts (sts_calls ?w) (AssumeRole ''role'' ''session'' 3600
              (if '''' \<noteq> [] then Some '''' else None))
            = Inr \<lparr>AccessKeyId = ''AKIA'', SecretAccessKey = ''secret'', SessionToken = ''token'',
                   Expiration = 4600\<rparr>"
    by simp
  have early: "sts_calls (snd (assume_role_body (\<lambda>k. 1000) ?sts ''role'' ''session'' '''' 3600
       (snd (assume_role_body (\<lambda>k. 1000) ?sts ''role'' ''session'' '''' 3600 ?w))))
     = [AssumeRole ''role'' ''session'' 3600 None]"
    using credential_acquisition[where w = ?w and role_arn = "''role''" and sts = ?sts
        and time_time = "\<lambda>k. 1000" and session_name = "''session''" and external_id = "''''"
        and duration_seconds = 3600, THEN conjunct2, THEN conjunct2, THEN conjunct1, rule_format,
        OF conjI[OF miss ok]]
    by simp
  have late: "sts_calls (snd (assume_role_body (\<lambda>k. 5000) ?sts ''role'' ''session'' '''' 3600
       (snd (assume_role_body (\<lambda>k. 5000) ?sts ''role'' ''session'' '''' 3600 ?w))))
     = [AssumeRole ''role'' ''session'' 3600 None, AssumeRole ''role'' ''session'' 3600 None]"
    using credential_acquisition[where w = ?w and role_arn = "''role''" and sts = ?sts
        and time_time = "\<lambda>k. 5000" and session_name = "''session''" and external_id = "''''"
        and duration_seconds = 3600, THEN conjunct2, THEN conjunct2, THEN conjunct1, rule_format,
        OF conjI[OF miss ok]]
    by simp
  show ?thesis using early late by simp
qed

section \<open>Validation\<close>

lemma sample_pool_length:
  "k \<le> length pool \<Longrightarrow> length (sample_pool pick i pool k) = k"
proof (induction k arbitrary: i pool)
  case 0
  then show ?case by simp
next
  case (Suc k)
  then obtain x xs where pool: "pool = x # xs" by (cases pool) auto
  have "length (butlast ((x # xs)[pick i mod length (x # xs) := last (x # xs)])) = length xs"
    unfolding length_butlast length_list_update by simp
  then have "k \<le> length (butlast ((x # xs)[pick i mod length (x # xs) := last (x # xs)]))"
    using Suc.prems pool by simp
  from Suc.IH[OF this] show ?case
    by (simp add: pool Let_def del: butlast.simps list_update.simps last.simps)
qed

lemma draw_samples_length:
  assumes "0 \<le> sample_size_cfg"
  shows "\<exists>samples. draw_samples pick objects (min sample_size_cfg (int (length objects))) = Inr samples
           \<and> int (length samples) = min sample_size_cfg (int (length objects))"
proof (cases "objects = []")
  case True
  then show ?thesis using assms by (simp add: draw_samples_def)
next
  case False
  let ?k = "min sample_size_cfg (int (length objects))"
  have k: "0 \<le> ?k" "?k \<le> int (length objects)" using assms by simp_all
  then have "nat ?k \<le> length objects" by linarith
  then have "length (sample_pool pick 0 objects (nat ?k)) = nat ?k"
    by (rule sample_pool_length)
  then show ?thesis
    using False k by (simp add: draw_samples_def random_sample_def)
qed

lemma draw_samples_empty: "draw_samples pick [] k = Inr []"
  by (simp add: draw_samples_def)

lemma check_samples_count:
  "check_samples rnd s3 source_prefix dest_prefix dest_bucket samples fails passed calls
     = ((fails', passed'), calls')
   \<Longrightarrow> passed' + int (length fails') = passed + int (length fails) + int (length samples)"
proof (induction samples arbitrary: fails passed calls)
  case Nil
  then show ?case by simp
next
  case (Cons obj rest)
  let ?key = "dest_key_of source_prefix dest_prefix (obj_Key obj)"
  let ?probe = "head_object rnd s3 dest_bucket ?key calls"
  show ?case
  proof (cases "fst ?probe")
    case (Inl e)
    then have "check_samples rnd s3 source_prefix dest_prefix dest_bucket rest
        (fails @ [\<lparr>f_key = ?key, f_expected_size = obj_Size obj, f_actual_size = None,
                   f_reason = ''head_object_failed: '' @ exn_str e\<rparr>])
        passed (world (snd ?probe)) = ((fails', passed'), calls')"
      using Cons.prems by (simp add: Let_def)
    from Cons.IH[OF this] show ?thesis by simp
  next
    case (Inr dest_meta)
    show ?thesis
    proof (cases "ContentLength dest_meta = obj_Size obj")
      case True
      then have "check_samples rnd s3 source_prefix dest_prefix dest_bucket rest fails
          (passed + 1) (world (snd ?probe)) = ((fails', passed'), calls')"
        using Cons.prems Inr by (simp add: Let_def)
      from Cons.IH[OF this] show ?thesis by simp
    next
      case False
      then have "check_samples rnd s3 source_prefix dest_prefix dest_bucket rest
          (fails @ [\<lparr>f_key = ?key, f_expected_size = obj_Size obj,
                     f_actual_size = Some (ContentLength dest_meta),
                     f_reason = ''size_mismatch''\<rparr>])
          passed (world (snd ?probe)) = ((fails', passed'), calls')"
        using Cons.prems Inr by (simp add: Let_def)
      from Cons.IH[OF this] show ?thesis by simp
    qed
  qed
qed

lemma validate_handler_result:
  assumes manifest: "read_manifest env = Inr mf"
    and role: "env_assume_role env (cfg_destination_role_arn config)
                 (''Validate-'' @ take 8 (dict_get (vev_execution_id event) ''unknown''))
                 (cfg_external_id config) = Inr creds"
    and listing: "count_pages (dest_pages env) 0 = Inr dest_count"
    and size: "0 \<le> cfg_validation_sample_size config"
  shows "\<exists>samples fails passed calls.
      draw_samples (env_pick env) (m_objects mf)
        (min (cfg_validation_sample_size config) (int (length (m_objects mf)))) = Inr samples
    \<and> int (length samples) = min (cfg_validation_sample_size config) (int (length (m_objects mf)))
    \<and> check_samples (env_rnd env) (dest_s3 env)
          (dict_get (m_source_prefix mf) (cfg_source_prefix config))
          (dict_get (vev_destination_prefix event) (cfg_destination_prefix config))
          (dict_get (vev_destination_bucket event) (cfg_destination_bucket config))
          samples [] 0 [] = ((fails, passed), calls)
    \<and> validate_handler config env event =
        (if status (validation_result_of (int (length (m_objects mf))) dest_count
               (min (cfg_validation_sample_size config) (int (length (m_objects mf))))
               passed fails (dict_get (vev_execution_id event) ''unknown'')
               (vev_manifest_bucket event) (vev_manifest_key event)
               (dict_get (vev_destination_bucket event) (cfg_destination_bucket config))) = FAILED
         then Inl (validation_failed (validation_result_of (int (length (m_objects mf))) dest_count
               (min (cfg_validation_sample_size config) (int (length (m_objects mf))))
               passed fails (dict_get (vev_execution_id event) ''unknown'')
               (vev_manifest_bucket event) (vev_manifest_key event)
               (dict_get (vev_destination_bucket event) (cfg_destination_bucket config))))
         else Inr (validation_result_of (int (length (m_objects mf))) dest_count
               (min (cfg_validation_sample_size config) (int (length (m_objects mf))))
               passed fails (dict_get (vev_execution_id event) ''unknown'')
               (vev_manifest_bucket event) (vev_manifest_key event)
               (dict_get (vev_destination_bucket event) (cfg_destination_bucket config))))"
proof -
  obtain samples where samples:
    "draw_samples (env_pick env) (m_objects mf)
        (min (cfg_validation_sample_size config) (int (length (m_objects mf)))) = Inr samples"
    "int (length samples) = min (cfg_validation_sample_size config) (int (length (m_objects mf)))"
    using draw_samples_length[OF size] by blast
  obtain fails passed calls where loop:
    "check_samples (env_rnd env) (dest_s3 env)
          (dict_get (m_source_prefix mf) (cfg_source_prefix config))
          (dict_get (vev_destination_prefix event) (cfg_destination_prefix config))
          (dict_get (vev_destination_bucket event) (cfg_destination_bucket config))
          samples [] 0 [] = ((fails, passed), calls)"
    by (metis surj_pair)
  show ?thesis
    using samples loop manifest role listing
    by (intro exI[of _ samples] exI[of _ fails] exI[of _ passed] exI[of _ calls])
       (simp add: validate_handler_def Let_def)
qed

lemma example_run:
  "validate_handler default_config example_env example_validate_event
     = Inl (validation_failed
         \<lparr>status = FAILED, total_expected = 2, total_found = 2, samples_checked = 2,
          samples_passed = 1,
          failures = [\<lparr>f_key = ''out/b.txt'', f_expected_size = 7, f_actual_size = Some 5,
                       f_reason = ''size_mismatch''\<rparr>],
          execution_id = ''exec-1'', manifest_bucket = ''manifests'', manifest_key = ''m.json'',
          destination_bucket = ''dst''\<rparr>)"
  by (simp add: validate_handler_def example_env_def example_validate_event_def
        example_manifest_def example_s3_def default_config_def dict_get_def
        draw_samples_def random_sample_def Let_def numeral_2_eq_2
        dest_key_of_def relative_key_of_def startswith_def
        head_object_def head_object_body_def exponential_backoff_with_jitter_def
        s3_retry_params_def upt_rec validation_result_of_def)

text \<open>
  C6. In a validation run that reaches the sampling (the manifest was read, the role
  assumed and the destination listed) with a non-negative configured sample size: the
  sample is drawn without error and has exactly \<open>min(validation_sample_size, len(objects))\<close>
  entries, none for an empty inventory; \<open>samples_checked\<close> is that number; the status
  of the result is \<open>PASSED\<close> if and only if the destination count is at least the expected
  count and the failures list is empty, and \<open>FAILED\<close> otherwise; and the handler returns the
  result when it is \<open>PASSED\<close> and raises the validation error that carries it when it is
  \<open>FAILED\<close>.
\<close>

theorem validation_status_and_sample_size:
  assumes "read_manifest env = Inr mf"
    and "env_assume_role env (cfg_destination_role_arn config)
           (''Validate-'' @ take 8 (dict_get (vev_execution_id event) ''unknown''))
           (cfg_external_id config) = Inr creds"
    and "count_pages (dest_pages env) 0 = Inr dest_count"
    and "0 \<le> cfg_validation_sample_size config"
  shows "\<exists>samples result.
      draw_samples (env_pick env) (m_objects mf)
        (min (cfg_validation_sample_size config) (int (length (m_objects mf)))) = Inr samples
    \<and> int (length samples) = min (cfg_validation_sample_size config) (int (length (m_objects mf)))
    \<and> (m_objects mf = [] \<longrightarrow> samples = [])
    \<and> samples_checked result = int (length samples)
    \<and> total_expected result = int (length (m_objects mf))
    \<and> total_found result = dest_count
    \<and> (status result = PASSED
         \<longleftrightarrow> total_expected result \<le> total_found result \<and> failures result = [])
    \<and> (status result \<noteq> PASSED \<longrightarrow> status result = FAILED)
    \<and> validate_handler config env event
        = (if status result = PASSED then Inr result else Inl (validation_failed result))"
proof -
  from validate_handler_result[OF assms] obtain samples fails passed calls where r:
    "draw_samples (env_pick env) (m_objects mf)
        (min (cfg_validation_sample_size config) (int (length (m_objects mf)))) = Inr samples"
    "int (length samples) = min (cfg_validation_sample_size config) (int (length (m_objects mf)))"
    "validate_handler config env event =
        (if status (validation_result_of (int (length (m_objects mf))) dest_count
               (min (cfg_validation_sample_size config) (int (length (m_objects mf))))
               passed fails (dict_get (vev_execution_id event) ''unknown'')
               (vev_manifest_bucket event) (vev_manifest_key event)
               (dict_get (vev_destination_bucket event) (cfg_destination_bucket config))) = FAILED
         then Inl (validation_failed (validation_result_of (int (length (m_objects mf))) dest_count
               (min (cfg_validation_sample_size config) (int (length (m_objects mf))))
               passed fails (dict_get (vev_execution_id event) ''unknown'')
               (vev_manifest_bucket event) (vev_manifest_key event)
               (dict_get (vev_destination_bucket event) (cfg_destination_bucket config))))
         else Inr (validation_result_of (int (length (m_objects mf))) dest_count
               (min (cfg_validation_sample_size config) (int (length (m_objects mf))))
               passed fails (dict_get (vev_execution_id event) ''unknown'')
               (vev_manifest_bucket event) (vev_manifest_key event)
               (dict_get (vev_destination_bucket event) (cfg_destination_bucket config))))"
    by blast
  define result where "result = validation_result_of (int (length (m_objects mf))) dest_count
               (min (cfg_validation_sample_size config) (int (length (m_objects mf))))
               passed fails (dict_get (vev_execution_id event) ''unknown'')
               (vev_manifest_bucket event) (vev_manifest_key event)
               (dict_get (vev_destination_bucket event) (cfg_destination_bucket config))"
  have empty: "m_objects mf = [] \<longrightarrow> samples = []"
    using r(2) assms(4) by auto
  have fields: "samples_checked result = int (length samples)"
    "total_expected result = int (length (m_objects mf))"
    "total_found result = dest_count"
    "status result = PASSED \<longleftrightarrow> total_expected result \<le> total_found result \<and> failures result = []"
    "status result \<noteq> PASSED \<longrightarrow> status result = FAILED"
    using r(2) by (simp_all add: result_def validation_result_of_def)
  have run: "validate_handler config env event
        = (if status result = PASSED then Inr result else Inl (validation_failed result))"
    using r(3) fields(5) unfolding result_def[symmetric] by auto
  show ?thesis
    using r(1) r(2) empty fields run by blast
qed

theorem validation_status_and_sample_size_witness:
  "0 \<le> cfg_validation_sample_size default_config
   \<and> (\<exists>samples result.
        draw_samples (env_pick example_env) (m_objects example_manifest) 2 = Inr samples
      \<and> length samples = 2
      \<and> samples_checked result = 2
      \<and> status result = FAILED
      \<and> validate_handler default_config example_env example_validate_event
          = Inl (validation_failed result))"
proof -
  have h1: "read_manifest example_env = Inr example_manifest"
    by (simp add: example_env_def)
  have h2: "env_assume_role example_env (cfg_destination_role_arn default_config)
           (''Validate-'' @ take 8 (dict_get (vev_execution_id example_validate_event) ''unknown''))
           (cfg_external_id default_config)
        = Inr \<lparr>aws_access_key_id = ''AKIA'', aws_secret_access_key = ''secret'',
                aws_session_token = ''token''\<rparr>"
    by (simp add: example_env_def)
  have h3: "count_pages (dest_pages example_env) 0 = Inr 2"
    by (simp add: example_env_def dict_get_def)
  have h4: "0 \<le> cfg_validation_sample_size default_config"
    by (simp add: default_config_def)
  have n: "min (cfg_validation_sample_size default_config) (int (length (m_objects example_manifest))) = 2"
    by (simp add: default_config_def example_manifest_def)
  from validation_status_and_sample_size[OF h1 h2 h3 h4]
  obtain samples result where r:
    "draw_samples (env_pick example_env) (m_objects example_manifest) 2 = Inr samples"
    "int (length samples) = 2"
    "samples_checked result = int (length samples)"
    "validate_handler default_config example_env example_validate_event
        = (if status result = PASSED then Inr result else Inl (validation_failed result))"
    unfolding n by blast
  have failed: "status result = FAILED"
    using r(4) unfolding example_run
    by (auto simp: validation_failed_def split: if_splits)
  have "validate_handler default_config example_env example_validate_event
          = Inl (validation_failed result)"
    using r(4) failed by simp
  then show ?thesis using h4 r(1,2,3) failed by auto
qed

text \<open>
  C10. In a validation run that reaches the sampling with a non-negative configured sample
  size, the handler either returns a result or raises the validation error that carries
  one, and in that result \<open>samples_passed\<close> plus the number of failure records equals
  \<open>samples_checked\<close>, which is the number of entries sampled: every sampled entry is
  counted once, as a pass or as one failure record, and the loop over the samples runs to
  its end whatever the probes do.
\<close>

theorem validation_sample_accounting:
  assumes "read_manifest env = Inr mf"
    and "env_assume_role env (cfg_destination_role_arn config)
           (''Validate-'' @ take 8 (dict_get (vev_execution_id event) ''unknown''))
           (cfg_external_id config) = Inr creds"
    and "count_pages (dest_pages env) 0 = Inr dest_count"
    and "0 \<le> cfg_validation_sample_size config"
  shows "\<exists>samples result.
      draw_samples (env_pick env) (m_objects mf)
        (min (cfg_validation_sample_size config) (int (length (m_objects mf)))) = Inr samples
    \<and> (validate_handler config env event = Inr result
        \<or> validate_handler config env event = Inl (validation_failed result))
    \<and> samples_passed result + int (length (failures result)) = samples_checked result
    \<and> samples_checked result = int (length samples)"
proof -
  from validate_handler_result[OF assms] obtain samples fails passed calls where r:
    "draw_samples (env_pick env) (m_objects mf)
        (min (cfg_validation_sample_size config) (int (length (m_objects mf)))) = Inr samples"
    "int (length samples) = min (cfg_validation_sample_size config) (int (length (m_objects mf)))"
    "check_samples (env_rnd env) (dest_s3 env)
          (dict_get (m_source_prefix mf) (cfg_source_prefix config))
          (dict_get (vev_destination_prefix event) (cfg_destination_prefix config))
          (dict_get (vev_destination_bucket event) (cfg_destination_bucket config))
          samples [] 0 [] = ((fails, passed), calls)"
    "validate_handler config env event =
        (if status (validation_result_of (int (length (m_objects mf))) dest_count
               (min (cfg_validation_sample_size config) (int (length (m_objects mf))))
               passed fails (dict_get (vev_execution_id event) ''unknown'')
               (vev_manifest_bucket event) (vev_manifest_key event)
               (dict_get (vev_destination_bucket event) (cfg_destination_bucket config))) = FAILED
         then Inl (validation_failed (validation_result_of (int (length (m_objects mf))) dest_count
               (min (cfg_validation_sample_size config) (int (length (m_objects mf))))
               passed fails (dict_get (vev_execution_id event) ''unknown'')
               (vev_manifest_bucket event) (vev_manifest_key event)
               (dict_get (vev_destination_bucket event) (cfg_destination_bucket config))))
         else Inr (validation_result_of (int (length (m_objects mf))) dest_count
               (min (cfg_validation_sample_size config) (int (length (m_objects mf))))
               passed fails (dict_get (vev_execution_id event) ''unknown'')
               (vev_manifest_bucket event) (vev_manifest_key event)
               (dict_get (vev_destination_bucket event) (cfg_destination_bucket config))))"
    by blast
  define result where "result = validation_result_of (int (length (m_objects mf))) dest_count
               (min (cfg_validation_sample_size config) (int (length (m_objects mf))))
               passed fails (dict_get (vev_execution_id event) ''unknown'')
               (vev_manifest_bucket event) (vev_manifest_key event)
               (dict_get (vev_destination_bucket event) (cfg_destination_bucket config))"
  have count: "passed + int (length fails) = int (length samples)"
    using check_samples_count[OF r(3)] by simp
  have fields: "samples_passed result + int (length (failures result)) = samples_checked result"
    "samples_checked result = int (length samples)"
    using count r(2) by (simp_all add: result_def validation_result_of_def)
  have run: "validate_handler config env event = Inr result
        \<or> validate_handler config env event = Inl (validation_failed result)"
    using r(4) unfolding result_def[symmetric] by (simp split: if_splits)
  show ?thesis using r(1) fields run by blast
qed

theorem validation_sample_accounting_witness:
  "0 \<le> cfg_validation_sample_size default_config
   \<and> (\<exists>result.
        validate_handler default_config example_env example_validate_event
          = Inl (validation_failed result)
      \<and> samples_passed result = 1 \<and> length (failures result) = 1
      \<and> samples_checked result = 2
      \<and> samples_passed result + int (length (failures result)) = samples_checked result)"
proof -
  have h1: "read_manifest example_env = Inr example_manifest"
    by (simp add: example_env_def)
  have h2: "env_assume_role example_env (cfg_destination_role_arn default_config)
           (''Validate-'' @ take 8 (dict_get (vev_execution_id example_validate_event) ''unknown''))
           (cfg_external_id default_config)
        = Inr \<lparr>aws_access_key_id = ''AKIA'', aws_secret_access_key = ''secret'',
                aws_session_token = ''token''\<rparr>"
    by (simp add: example_env_def)
  have h3: "count_pages (dest_pages example_env) 0 = Inr 2"
    by (simp add: example_env_def dict_get_def)
  have h4: "0 \<le> cfg_validation_sample_size default_config"
    by (simp add: default_config_def)
  from validation_sample_accounting[OF h1 h2 h3 h4]
  obtain result where r:
    "validate_handler default_config example_env example_validate_event = Inr result
        \<or> validate_handler default_config example_env example_validate_event
            = Inl (validation_failed result)"
    "samples_passed result + int (length (failures result)) = samples_checked result"
    by blast
  have res: "result = \<lparr>status = FAILED, total_expected = 2, total_found = 2, samples_checked = 2,
          samples_passed = 1,
          failures = [\<lparr>f_key = ''out/b.txt'', f_expected_size = 7, f_actual_size = Some 5,
                       f_reason = ''size_mismatch''\<rparr>],
          execution_id = ''exec-1'', manifest_bucket = ''manifests'', manifest_key = ''m.json'',
          destination_bucket = ''dst''\<rparr>"
    using r(1) unfolding example_run by (auto simp: validation_failed_def)
  have "validate_handler default_config example_env example_validate_event
          = Inl (validation_failed result)"
    unfolding example_run res by simp
  moreover have "samples_passed result = 1" "length (failures result) = 1" "samples_checked result = 2"
    by (simp_all add: res)
  ultimately show ?thesis using h4 r(2) by blast
qed

section \<open>Copy path decision\<close>

lemma retry_loop_world:
  fixes func :: "'w \<Rightarrow> (exn + 'a) \<times> 'w"
  assumes g: "g = snd \<circ> func"
  shows "\<exists>n\<le>length attempts.
           invocations (snd (retry_loop P rnd func attempts le st)) = invocations st + n
         \<and> world (snd (retry_loop P rnd func attempts le st)) = (g ^^ n) (world st)
         \<and> (attempts \<noteq> [] \<longrightarrow> 1 \<le> n)"
proof (induction attempts arbitrary: le st)
  case Nil
  show ?case by (intro exI[of _ 0]) (simp split: option.splits)
next
  case (Cons attempt rest)
  obtain r w' where f: "func (world st) = (r, w')" by (cases "func (world st)")
  define st1 where "st1 = st\<lparr>world := w', invocations := Suc (invocations st)\<rparr>"
  have w1: "world st1 = g (world st)" "invocations st1 = Suc (invocations st)"
    by (simp_all add: st1_def f g)
  show ?case
  proof (cases "\<exists>e st2. retry_loop P rnd func (attempt # rest) le st
                   = retry_loop P rnd func rest (Some e) st2
                 \<and> world st2 = world st1 \<and> invocations st2 = invocations st1")
    case True
    then obtain e st2 where rec: "retry_loop P rnd func (attempt # rest) le st
                   = retry_loop P rnd func rest (Some e) st2"
      "world st2 = world st1" "invocations st2 = invocations st1" by blast
    from Cons.IH[of "Some e" st2] obtain n where n: "n \<le> length rest"
      "invocations (snd (retry_loop P rnd func rest (Some e) st2)) = invocations st2 + n"
      "world (snd (retry_loop P rnd func rest (Some e) st2)) = (g ^^ n) (world st2)"
      by blast
    have shift: "(g ^^ n) (g (world st)) = (g ^^ Suc n) (world st)"
      by (rule funpow_shift)
    have "invocations (snd (retry_loop P rnd func rest (Some e) st2)) = invocations st + Suc n"
      using n(2) rec(3) w1(2) by simp
    moreover have "world (snd (retry_loop P rnd func rest (Some e) st2)) = (g ^^ Suc n) (world st)"
      using n(3) rec(2) w1(1) shift by simp
    moreover have "Suc n \<le> length (attempt # rest)" using n(1) by simp
    ultimately show ?thesis
      unfolding rec(1) by (intro exI[of _ "Suc n"]) simp
  next
    case False
    have stop: "snd (retry_loop P rnd func (attempt # rest) le st) = st1"
    proof (cases r)
      case (Inr v)
      then show ?thesis using f by (simp add: st1_def)
    next
      case (Inl e)
      show ?thesis
      proof (rule ccontr)
        assume neq: "snd (retry_loop P rnd func (attempt # rest) le st) \<noteq> st1"
        then have "retry_loop P rnd func (attempt # rest) le st
            = retry_loop P rnd func rest (Some e)
                (st1\<lparr>sleeps := sleeps st1 @ [uniform (rnd (length (sleeps st1))) 0
                                    (min (max_delay P) (base_delay P * 2 ^ attempt))]\<rparr>)"
          using f Inl by (auto simp: st1_def Let_def split: if_splits option.splits)
        then show False using False by (metis (no_types, lifting) retry_state.select_convs
              retry_state.surjective retry_state.update_convs)
      qed
    qed
    show ?thesis
      unfolding stop using w1 by (intro exI[of _ 1]) simp
  qed
qed

lemma backoff_world:
  fixes func :: "'w \<Rightarrow> (exn + 'a) \<times> 'w"
  assumes "1 \<le> max_attempts P"
  shows "\<exists>n. 1 \<le> n \<and> int n \<le> max_attempts P
         \<and> world (snd (exponential_backoff_with_jitter P rnd func w)) = ((snd \<circ> func) ^^ n) w"
proof -
  have ne: "[0..<nat (max_attempts P)] \<noteq> []" using assms by simp
  from retry_loop_world[OF refl, of "[0..<nat (max_attempts P)]" P rnd func None
      "\<lparr>world = w, invocations = 0, sleeps = []\<rparr>"]
  obtain n where n: "n \<le> length [0..<nat (max_attempts P)]"
    "world (snd (retry_loop P rnd func [0..<nat (max_attempts P)] None
        \<lparr>world = w, invocations = 0, sleeps = []\<rparr>)) = ((snd \<circ> func) ^^ n) w"
    "1 \<le> n"
    using ne by auto
  have "int n \<le> max_attempts P" using n(1) assms by simp
  then show ?thesis
    using n(2,3) unfolding exponential_backoff_with_jitter_def by blast
qed

lemma copy_object_body_calls:
  "snd (copy_object_body s3 sb sk db dk kms calls) = calls @ [CopyObject sb sk db dk kms]"
  by (simp add: copy_object_body_def Let_def split: sum.splits exn.splits)

lemma funpow_append_one:
  assumes "\<And>x. g x = x @ [c]"
  shows "(g ^^ n) x = x @ replicate n c"
proof (induction n arbitrary: x)
  case 0
  show ?case by simp
next
  case (Suc n)
  have "(g ^^ Suc n) x = (g ^^ n) (g x)" by (rule funpow_shift[symmetric])
  also have "\<dots> = (x @ [c]) @ replicate n c" unfolding Suc.IH assms ..
  finally show ?case by (simp add: replicate_app_Cons_same)
qed

lemma copy_object_body_iterate:
  "((snd \<circ> copy_object_body s3 sb sk db dk kms) ^^ n) calls
     = calls @ replicate n (CopyObject sb sk db dk kms)"
  by (rule funpow_append_one) (simp add: copy_object_body_calls)

lemma copy_object_calls:
  "\<exists>n. 1 \<le> n \<and> n \<le> 5
     \<and> world (snd (copy_object rnd s3 sb sk db dk kms [])) = replicate n (CopyObject sb sk db dk kms)"
proof -
  have "1 \<le> max_attempts s3_retry_params" by (simp add: s3_retry_params_def)
  from backoff_world[OF this, of rnd "copy_object_body s3 sb sk db dk kms" "[]"]
  obtain n where n: "1 \<le> n" "int n \<le> max_attempts s3_retry_params"
    "world (snd (copy_object rnd s3 sb sk db dk kms []))
       = ((snd \<circ> copy_object_body s3 sb sk db dk kms) ^^ n) []"
    unfolding copy_object_def by blast
  have "n \<le> 5" using n(2) by (simp add: s3_retry_params_def)
  then show ?thesis
    using n(1,3) unfolding copy_object_body_iterate by auto
qed

lemma copy_object_first_success:
  assumes "api_copy_object s3 [] (CopyObject sb sk db dk kms) = Inr response"
  shows "copy_object rnd s3 sb sk db dk kms []
           = (Inr response, \<lparr>world = [CopyObject sb sk db dk kms], invocations = 1, sleeps = []\<rparr>)"
  unfolding copy_object_def
  by (rule retry_first_success)
     (simp_all add: s3_retry_params_def copy_object_body_def assms)

lemma copy_parts_extends:
  "\<exists>ext. snd (copy_parts s3 db dk uid src object_size part_size ks parts calls) = calls @ ext
         \<and> list_all is_multipart_call ext"
proof (induction ks arbitrary: parts calls)
  case Nil
  show ?case by simp
next
  case (Cons k ks)
  let ?c = "upload_call db dk uid src object_size part_size k"
  have c: "is_multipart_call ?c" by (simp add: upload_call_def)
  show ?case
  proof (cases "api_upload_part_copy s3 calls ?c")
    case (Inl e)
    then show ?thesis using c by (simp add: copy_parts_Cons del: copy_parts.simps)
  next
    case (Inr etag)
    from Cons.IH[of "parts @ [(k, etag)]" "calls @ [?c]"] obtain ext where
      "snd (copy_parts s3 db dk uid src object_size part_size ks (parts @ [(k, etag)]) (calls @ [?c]))
         = (calls @ [?c]) @ ext" "list_all is_multipart_call ext" by blast
    then show ?thesis
      using Inr c by (intro exI[of _ "?c # ext"]) (simp add: copy_parts_Cons del: copy_parts.simps)
  qed
qed

lemma abort_and_reraise_extends:
  "\<exists>ext. snd (abort_and_reraise s3 db dk upload_id e calls) = calls @ ext
         \<and> list_all is_multipart_call ext"
  by (cases upload_id) (auto simp: abort_and_reraise_def split: sum.splits)

lemma multipart_copy_body_extends:
  "\<exists>ext. snd (multipart_copy_body s3 sb sk db dk object_size kms part_size calls) = calls @ ext
         \<and> list_all is_multipart_call ext
         \<and> (object_size \<le> MAX_OBJECT_SIZE
              \<longrightarrow> ext \<noteq> [] \<and> hd ext = CreateMultipartUpload db dk kms)"
proof (cases "object_size \<le> MAX_OBJECT_SIZE")
  case False
  then show ?thesis by (intro exI[of _ "[]"]) (simp add: multipart_copy_body_def)
next
  case size: True
  let ?create = "CreateMultipartUpload db dk kms"
  show ?thesis
  proof (cases "api_create_multipart_upload s3 calls ?create")
    case (Inl e)
    show ?thesis
      unfolding multipart_copy_body_create_fails[OF size Inl]
      by (intro exI[of _ "[?create]"]) simp
  next
    case (Inr uid)
    have tail: "\<exists>ext. snd (multipart_copy_body s3 sb sk db dk object_size kms part_size calls)
                  = (calls @ [?create]) @ ext \<and> list_all is_multipart_call ext"
    proof (cases "num_parts object_size part_size")
      case np: (Inl e0)
      show ?thesis
        unfolding multipart_copy_body_created[OF size Inr] np
        using abort_and_reraise_extends[of s3 db dk "Some uid" e0 "calls @ [?create]"]
        by simp
    next
      case np: (Inr n)
      let ?loop = "copy_parts s3 db dk uid (sb @ ''/'' @ sk) object_size part_size
                     [1..n] [] (calls @ [?create])"
      obtain r calls2 where loop: "?loop = (r, calls2)" by (cases ?loop)
      obtain ext1 where ext1: "calls2 = (calls @ [?create]) @ ext1" "list_all is_multipart_call ext1"
        using copy_parts_extends[of s3 db dk uid "sb @ ''/'' @ sk" object_size part_size
            "[1..n]" "[]" "calls @ [?create]"] loop by auto
      show ?thesis
      proof (cases r)
        case (Inl e)
        obtain ext2 where "snd (abort_and_reraise s3 db dk (Some uid) e calls2) = calls2 @ ext2"
          "list_all is_multipart_call ext2"
          using abort_and_reraise_extends by blast
        then show ?thesis
          unfolding multipart_copy_body_created[OF size Inr] np
          using loop Inl ext1 by (intro exI[of _ "ext1 @ ext2"]) simp
      next
        case (Inr parts)
        let ?complete = "CompleteMultipartUpload db dk uid parts"
        show ?thesis
        proof (cases "api_complete_multipart_upload s3 calls2 ?complete")
          case (Inl e)
          obtain ext2 where "snd (abort_and_reraise s3 db dk (Some uid) e (calls2 @ [?complete]))
              = (calls2 @ [?complete]) @ ext2" "list_all is_multipart_call ext2"
            using abort_and_reraise_extends by blast
          then show ?thesis
            unfolding multipart_copy_body_created[OF size \<open>api_create_multipart_upload s3 calls ?create = Inr uid\<close>]
              np
            using loop Inr Inl ext1 by (intro exI[of _ "ext1 @ ?complete # ext2"]) simp
        next
          case res: (Inr result)
          show ?thesis
            unfolding multipart_copy_body_created[OF size \<open>api_create_multipart_upload s3 calls ?create = Inr uid\<close>]
              np
            using loop Inr res ext1 by (intro exI[of _ "ext1 @ [?complete]"]) simp
        qed
      qed
    qed
    then obtain ext where "snd (multipart_copy_body s3 sb sk db dk object_size kms part_size calls)
                  = (calls @ [?create]) @ ext" "list_all is_multipart_call ext" by blast
    then show ?thesis by (intro exI[of _ "?create # ext"]) simp
  qed
qed

lemma multipart_copy_body_iterate:
  "\<exists>ext. ((snd \<circ> multipart_copy_body s3 sb sk db dk object_size kms part_size) ^^ n) calls
           = calls @ ext
         \<and> list_all is_multipart_call ext
         \<and> (object_size \<le> MAX_OBJECT_SIZE \<and> 1 \<le> n
              \<longrightarrow> ext \<noteq> [] \<and> hd ext = CreateMultipartUpload db dk kms)"
proof (induction n arbitrary: calls)
  case 0
  show ?case by (intro exI[of _ "[]"]) simp
next
  case (Suc n)
  let ?g = "snd \<circ> multipart_copy_body s3 sb sk db dk object_size kms part_size"
  obtain ext1 where ext1: "?g calls = calls @ ext1" "list_all is_multipart_call ext1"
    "object_size \<le> MAX_OBJECT_SIZE \<longrightarrow> ext1 \<noteq> [] \<and> hd ext1 = CreateMultipartUpload db dk kms"
    using multipart_copy_body_extends[of s3 sb sk db dk object_size kms part_size calls] by auto
  obtain ext2 where ext2: "(?g ^^ n) (?g calls) = ?g calls @ ext2" "list_all is_multipart_call ext2"
    using Suc.IH[of "?g calls"] by blast
  have "(?g ^^ Suc n) calls = (?g ^^ n) (?g calls)" by (rule funpow_shift[symmetric])
  then have "(?g ^^ Suc n) calls = calls @ (ext1 @ ext2)" using ext1(1) ext2(1) by simp
  moreover have "list_all is_multipart_call (ext1 @ ext2)" using ext1(2) ext2(2) by simp
  moreover have "object_size \<le> MAX_OBJECT_SIZE \<longrightarrow>
      ext1 @ ext2 \<noteq> [] \<and> hd (ext1 @ ext2) = CreateMultipartUpload db dk kms"
    using ext1(3) by simp
  ultimately show ?case by blast
qed

lemma multipart_copy_calls:
  "list_all is_multipart_call (world (snd (multipart_copy rnd s3 sb sk db dk object_size kms part_size [])))
   \<and> (object_size \<le> MAX_OBJECT_SIZE \<longrightarrow>
        world (snd (multipart_copy rnd s3 sb sk db dk object_size kms part_size [])) \<noteq> []
      \<and> hd (world (snd (multipart_copy rnd s3 sb sk db dk object_size kms part_size [])))
          = CreateMultipartUpload db dk kms)"
proof -
  have "1 \<le> max_attempts s3_retry_params" by (simp add: s3_retry_params_def)
  from backoff_world[OF this, of rnd "multipart_copy_body s3 sb sk db dk object_size kms part_size" "[]"]
  obtain n where n: "1 \<le> n"
    "world (snd (multipart_copy rnd s3 sb sk db dk object_size kms part_size []))
       = ((snd \<circ> multipart_copy_body s3 sb sk db dk object_size kms part_size) ^^ n) []"
    unfolding multipart_copy_def by blast
  from multipart_copy_body_iterate[where sb = sb and sk = sk and db = db and dk = dk
      and object_size = object_size and kms = kms and part_size = part_size and n = n
      and calls = "[]", of s3]
  obtain ext where ext: "((snd \<circ> multipart_copy_body s3 sb sk db dk object_size kms part_size) ^^ n) []
           = ext" "list_all is_multipart_call ext"
      "object_size \<le> MAX_OBJECT_SIZE \<and> 1 \<le> n \<longrightarrow> ext \<noteq> [] \<and> hd ext = CreateMultipartUpload db dk kms"
    by auto
  show ?thesis unfolding n(2) ext(1) using ext(2,3) n(1) by simp
qed

text \<open>
  C7. Once the destination role is assumed: for an object smaller than the configured
  threshold (5 GiB when none is configured), the handler calls \<open>copy_object\<close> once and
  nothing else, so the calls on the client are between one and five identical
  \<open>CopyObject\<close> attempts of the retrier, exactly one when the first attempt succeeds, and
  no call of the multipart life cycle; for an object of at least the threshold size the
  handler calls \<open>multipart_copy\<close> and nothing else, so every call on the client belongs
  to the multipart life cycle, and the first one creates the upload unless the object
  exceeds the maximum size.
\<close>

theorem copy_path_decision:
  fixes rnd :: "nat \<Rightarrow> real" and s3 :: s3_client
  assumes "assume_role_call (cfg_destination_role_arn config)
             (''Transfer-'' @ take 8 (dict_get (ev_execution_id event) ''unknown''))
             (cfg_external_id config) = Inr creds"
  defines "sb \<equiv> dict_get (ev_source_bucket event) (cfg_source_bucket config)"
    and "db \<equiv> dict_get (ev_destination_bucket event) (cfg_destination_bucket config)"
    and "dkey \<equiv> dest_key_of (dict_get (ev_source_prefix event) (cfg_source_prefix config))
                  (dict_get (ev_destination_prefix event) (cfg_destination_prefix config))
                  (ev_Key event)"
    and "kms \<equiv> cfg_destination_kms_key_id config"
    and "run \<equiv> transfer_handler config assume_role_call rnd s3 event"
  shows "(ev_Size event < cfg_multipart_threshold_bytes config \<longrightarrow>
            snd run = world (snd (copy_object rnd s3 sb (ev_Key event) db dkey kms []))
          \<and> (\<exists>n. 1 \<le> n \<and> n \<le> 5
                \<and> snd run = replicate n (CopyObject sb (ev_Key event) db dkey kms))
          \<and> \<not> list_ex is_multipart_call (snd run)
          \<and> (\<forall>response.
                api_copy_object s3 [] (CopyObject sb (ev_Key event) db dkey kms) = Inr response
                \<longrightarrow> run = (Inr \<lparr>tr_status = ''SUCCESS'', tr_source_key = ev_Key event,
                                 tr_dest_key = dkey, tr_size = ev_Size event\<rparr>,
                           [CopyObject sb (ev_Key event) db dkey kms])))
       \<and> (cfg_multipart_threshold_bytes config \<le> ev_Size event \<longrightarrow>
            snd run = world (snd (multipart_copy rnd s3 sb (ev_Key event) db dkey (ev_Size event)
                                    kms (cfg_multipart_chunk_size_bytes config) []))
          \<and> list_all is_multipart_call (snd run)
          \<and> (ev_Size event \<le> MAX_OBJECT_SIZE \<longrightarrow>
                snd run \<noteq> [] \<and> hd (snd run) = CreateMultipartUpload db dkey kms))
       \<and> cfg_multipart_threshold_bytes default_config = 5 * 1024 * 1024 * 1024"
proof (intro conjI impI allI)
  assume small: "ev_Size event < cfg_multipart_threshold_bytes config"
  show single: "snd run = world (snd (copy_object rnd s3 sb (ev_Key event) db dkey kms []))"
    using assms(1) small
    by (simp add: run_def transfer_handler_def Let_def sb_def db_def dkey_def kms_def
          split: prod.splits sum.splits)
  obtain n where n: "1 \<le> n" "n \<le> 5"
    "world (snd (copy_object rnd s3 sb (ev_Key event) db dkey kms []))
       = replicate n (CopyObject sb (ev_Key event) db dkey kms)"
    using copy_object_calls by blast
  show "\<exists>n. 1 \<le> n \<and> n \<le> 5 \<and> snd run = replicate n (CopyObject sb (ev_Key event) db dkey kms)"
    unfolding single using n by blast
  show "\<not> list_ex is_multipart_call (snd run)"
    unfolding single n(3) by (simp add: list_ex_iff)
  fix response
  assume ok: "api_copy_object s3 [] (CopyObject sb (ev_Key event) db dkey kms) = Inr response"
  show "run = (Inr \<lparr>tr_status = ''SUCCESS'', tr_source_key = ev_Key event,
                                 tr_dest_key = dkey, tr_size = ev_Size event\<rparr>,
                           [CopyObject sb (ev_Key event) db dkey kms])"
    using assms(1) small copy_object_first_success[OF ok, of rnd]
    by (simp add: run_def transfer_handler_def Let_def sb_def db_def dkey_def kms_def)
next
  assume large: "cfg_multipart_threshold_bytes config \<le> ev_Size event"
  show chunked: "snd run = world (snd (multipart_copy rnd s3 sb (ev_Key event) db dkey (ev_Size event)
                                    kms (cfg_multipart_chunk_size_bytes config) []))"
    using assms(1) large
    by (simp add: run_def transfer_handler_def Let_def sb_def db_def dkey_def kms_def
          split: prod.splits sum.splits)
  show "list_all is_multipart_call (snd run)"
    unfolding chunked using multipart_copy_calls by blast
  assume "ev_Size event \<le> MAX_OBJECT_SIZE"
  then show "snd run \<noteq> []" "hd (snd run) = CreateMultipartUpload db dkey kms"
    unfolding chunked using multipart_copy_calls by blast+
next
  show "cfg_multipart_threshold_bytes default_config = 5 * 1024 * 1024 * 1024"
    by (simp add: default_config_def)
qed

lemma example_dest_key:
  "dest_key_of ''data/'' ''out/'' ''data/a.txt'' = ''out/a.txt''"
  by (simp add: dest_key_of_def relative_key_of_def startswith_def)

theorem copy_path_decision_witness:
  "transfer_handler default_config example_assume_role (\<lambda>k. 1 / 2) example_s3 example_small_event
     = (Inr \<lparr>tr_status = ''SUCCESS'', tr_source_key = ''data/a.txt'', tr_dest_key = ''out/a.txt'',
             tr_size = 10 * 1024 * 1024\<rparr>,
        [CopyObject ''src'' ''data/a.txt'' ''dst'' ''out/a.txt'' ''''])
   \<and> list_all is_multipart_call
        (snd (transfer_handler default_config example_assume_role (\<lambda>k. 1 / 2) example_s3
                example_large_event))
   \<and> hd (snd (transfer_handler default_config example_assume_role (\<lambda>k. 1 / 2) example_s3
                example_large_event))
       = CreateMultipartUpload ''dst'' ''out/a.txt'' ''''"
proof -
  have role: "example_assume_role (cfg_destination_role_arn default_config)
             (''Transfer-'' @ take 8 (dict_get (ev_execution_id ev) ''unknown''))
             (cfg_external_id default_config)
           = Inr \<lparr>aws_access_key_id = ''AKIA'', aws_secret_access_key = ''secret'',
                   aws_session_token = ''token''\<rparr>" for ev
    by (simp add: example_assume_role_def)
  have small: "ev_Size example_small_event < cfg_multipart_threshold_bytes default_config"
    by (simp add: example_small_event_def default_config_def)
  have large: "cfg_multipart_threshold_bytes default_config \<le> ev_Size example_large_event"
    "ev_Size example_large_event \<le> MAX_OBJECT_SIZE"
    by (simp_all add: example_large_event_def default_config_def MAX_OBJECT_SIZE_def)
  have ok: "api_copy_object example_s3 [] c = Inr ''copied''" for c
    by (simp add: example_s3_def)
  note inst_small = copy_path_decision[where assume_role_call = example_assume_role
      and config = default_config and event = example_small_event and rnd = "\<lambda>k. 1 / 2"
      and ?s3.0 = example_s3, OF role]
  note inst_large = copy_path_decision[where assume_role_call = example_assume_role
      and config = default_config and event = example_large_event and rnd = "\<lambda>k. 1 / 2"
      and ?s3.0 = example_s3, OF role]
  have a: "transfer_handler default_config example_assume_role (\<lambda>k. 1 / 2) example_s3
             example_small_event
     = (Inr \<lparr>tr_status = ''SUCCESS'', tr_source_key = ''data/a.txt'', tr_dest_key = ''out/a.txt'',
             tr_size = 10 * 1024 * 1024\<rparr>,
        [CopyObject ''src'' ''data/a.txt'' ''dst'' ''out/a.txt'' ''''])"
    using inst_small[THEN conjunct1, rule_format, OF small, THEN conjunct2, THEN conjunct2,
        THEN conjunct2, rule_format, OF ok]
    by (simp add: example_small_event_def example_dest_key default_config_def dict_get_def)
  have b: "list_all is_multipart_call
        (snd (transfer_handler default_config example_assume_role (\<lambda>k. 1 / 2) example_s3
                example_large_event))"
    using inst_large[THEN conjunct2, THEN conjunct1, rule_format, OF large(1), THEN conjunct2,
        THEN conjunct1] .
  have c: "hd (snd (transfer_handler default_config example_assume_role (\<lambda>k. 1 / 2) example_s3
                example_large_event))
       = CreateMultipartUpload ''dst'' ''out/a.txt'' ''''"
    using inst_large[THEN conjunct2, THEN conjunct1, rule_format, OF large(1), THEN conjunct2,
        THEN conjunct2, rule_format, OF large(2), THEN conjunct2]
    by (simp add: example_large_event_def example_dest_key default_config_def dict_get_def)
  show ?thesis using a b c by simp
qed

section \<open>Inputs outside the preconditions\<close>

text \<open>
  What the code does where the theorems above assume something of the configuration or
  of the service: no attempt at all for \<open>max_attempts \<le> 0\<close>, a \<open>ValueError\<close> from
  \<open>time.sleep\<close> for a negative delay and an \<open>OverflowError\<close> for one of more than
  \<open>2^63\<close> nanoseconds, no abort for an empty upload identifier, a
  \<open>ValueError\<close> from \<open>random.sample\<close> for a negative sample size, and a negative
  \<open>samples_checked\<close> for a negative sample size and an empty inventory.
\<close>

lemma sleep_failure_negative:
  assumes "d < 0" and "- 9223372036 \<le> d"
  shows "sleep_failure d = Some (Raised PyValueError ''sleep length must be non-negative'' NoDetails)"
proof -
  have "real_of_int (- 9223372036 * 10 ^ 9) = - 9223372036 * 10 ^ 9" by simp
  also have "\<dots> \<le> d * 10 ^ 9" using assms(2) by simp
  finally have "- 9223372036 * 10 ^ 9 \<le> \<lfloor>d * 10 ^ 9\<rfloor>" by (simp only: le_floor_iff)
  moreover have "- (2 ^ 63) < (- 9223372036 * 10 ^ 9 :: int)" by simp
  ultimately have low: "\<not> \<lfloor>d * 10 ^ 9\<rfloor> < - (2 ^ 63)" by linarith
  have "d * 10 ^ 9 < 0" using assms(1) by (simp add: mult_less_0_iff)
  then have neg: "\<lfloor>d * 10 ^ 9\<rfloor> < 0" by (simp add: floor_less_iff)
  have "(0::int) < 2 ^ 63" by simp
  then have up: "\<not> 2 ^ 63 \<le> \<lfloor>d * 10 ^ 9\<rfloor>" using neg by linarith
  show ?thesis
    using assms(1) low neg up by (simp add: sleep_failure_def Let_def not_le del: floor_less_zero)
qed

lemma sleep_failure_too_long:
  assumes "9223372037 \<le> d"
  shows "sleep_failure d =
           Some (Raised PyOverflowError ''timestamp too large to convert to C _PyTime_t'' NoDetails)"
proof -
  have "real_of_int (2 ^ 63) - 1 < 9223372037 * 10 ^ 9" by simp
  also have "(9223372037 * 10 ^ 9 :: real) \<le> d * 10 ^ 9" using assms by simp
  finally have "2 ^ 63 \<le> \<lceil>d * 10 ^ 9\<rceil>" by (simp only: le_ceiling_iff)
  moreover have "0 \<le> d" using assms by simp
  ultimately show ?thesis by (simp add: sleep_failure_def Let_def)
qed

lemma retrier_no_attempts:
  fixes func :: "'w \<Rightarrow> (exn + 'a) \<times> 'w"
  assumes "max_attempts P \<le> 0"
  shows "exponential_backoff_with_jitter P rnd func w =
           (Inl (Raised PyTypeError ''exceptions must derive from BaseException'' NoDetails),
            \<lparr>world = w, invocations = 0, sleeps = []\<rparr>)"
  using assms by (simp add: exponential_backoff_with_jitter_def)

lemma retrier_negative_delay:
  fixes func :: "'w \<Rightarrow> (exn + 'a) \<times> 'w"
  assumes "1 < max_attempts P"
    and "func w = (Inl e, w')"
    and "isinstance e (retryable_exceptions P)"
    and "uniform (rnd 0) 0 (min (max_delay P) (base_delay P)) < 0"
    and "- 9223372036 \<le> uniform (rnd 0) 0 (min (max_delay P) (base_delay P))"
  shows "exponential_backoff_with_jitter P rnd func w =
           (Inl (Raised PyValueError ''sleep length must be non-negative'' NoDetails),
            \<lparr>world = w', invocations = 1, sleeps = []\<rparr>)"
proof -
  have "[0..<nat (max_attempts P)] = 0 # [1..<nat (max_attempts P)]"
    using assms(1) by (simp add: upt_rec)
  then show ?thesis
    using assms(1,2,3) sleep_failure_negative[OF assms(4,5)]
    by (simp add: exponential_backoff_with_jitter_def Let_def)
qed

lemma retrier_sleep_too_long:
  fixes func :: "'w \<Rightarrow> (exn + 'a) \<times> 'w"
  assumes "1 < max_attempts P"
    and "func w = (Inl e, w')"
    and "isinstance e (retryable_exceptions P)"
    and "9223372037 \<le> uniform (rnd 0) 0 (min (max_delay P) (base_delay P))"
  shows "exponential_backoff_with_jitter P rnd func w =
           (Inl (Raised PyOverflowError ''timestamp too large to convert to C _PyTime_t''
                  NoDetails),
            \<lparr>world = w', invocations = 1, sleeps = []\<rparr>)"
proof -
  have "[0..<nat (max_attempts P)] = 0 # [1..<nat (max_attempts P)]"
    using assms(1) by (simp add: upt_rec)
  then show ?thesis
    using assms(1,2,3) sleep_failure_too_long[OF assms(4)]
    by (simp add: exponential_backoff_with_jitter_def Let_def)
qed

lemma multipart_copy_empty_upload_id:
  assumes "object_size \<le> MAX_OBJECT_SIZE"
    and "api_create_multipart_upload s3 calls (CreateMultipartUpload db dk kms) = Inr []"
  shows "multipart_copy_body s3 sb sk db dk object_size kms 0 calls =
           (Inl (Raised PyZeroDivisionError ''division by zero'' NoDetails),
            calls @ [CreateMultipartUpload db dk kms])"
  unfolding multipart_copy_body_created[OF assms]
  by (simp add: num_parts_division_by_zero abort_and_reraise_empty)

lemma draw_samples_negative:
  assumes "objects \<noteq> []" and "k < 0"
  shows "draw_samples pick objects k =
           Inl (Raised PyValueError ''Sample larger than population or is negative'' NoDetails)"
  using assms by (simp add: draw_samples_def random_sample_def)

lemma validate_handler_negative_sample_size:
  assumes "read_manifest env = Inr mf"
    and "m_objects mf = []"
    and "env_assume_role env (cfg_destination_role_arn config)
           (''Validate-'' @ take 8 (dict_get (vev_execution_id event) ''unknown''))
           (cfg_external_id config) = Inr creds"
    and "count_pages (dest_pages env) 0 = Inr dest_count"
    and "0 \<le> dest_count"
    and "cfg_validation_sample_size config < 0"
  shows "\<exists>result. validate_handler config env event = Inr result
           \<and> samples_checked result = cfg_validation_sample_size config
           \<and> samples_passed result = 0 \<and> failures result = []"
  using assms
  by (simp add: validate_handler_def Let_def draw_samples_def validation_result_of_def)

end
